theory Spec2Isabelle
  imports Complex_Main
begin

section \<open>Column types of the schema\<close>

text \<open>
  The migration declares every primary key as \<^verbatim>\<open>uuid DEFAULT gen_random_uuid()\<close>.
  Identifiers are natural numbers here and the generator is a counter of the store, so a
  generated identifier is one that was never handed out before. No caller of the
  repository supplies an identifier, and the payloads below have no such field.
  Timestamps are natural numbers read from the clock of the store.
\<close>

type_synonym uuid = nat
type_synonym timestamptz = nat

text \<open>
  Errors a request can come back with. \<open>ConstraintViolation\<close> is a unique or foreign
  key conflict, \<open>RestrictedDelete\<close> a deletion blocked by \<^verbatim>\<open>ON DELETE RESTRICT\<close>,
  \<open>NumericValueOutOfRange\<close> a number outside its column type,
  \<open>InvalidTextRepresentation\<close> a text that is no value of the column type,
  \<open>GeneratedAlways\<close> a write to a \<^verbatim>\<open>GENERATED ALWAYS\<close> column, \<open>MultipleRows\<close> the answer of
  \<^verbatim>\<open>maybeSingle()\<close> to more than one row, and \<open>RequestFailed\<close> a request that did not
  reach the store.
\<close>

datatype error =
    ConstraintViolation
  | RestrictedDelete
  | NumericValueOutOfRange
  | InvalidTextRepresentation
  | GeneratedAlways
  | MultipleRows
  | RequestFailed

text \<open>\<^verbatim>\<open>integer\<close> is the 32-bit signed type: a value outside it is rejected, not wrapped.\<close>

definition in_int4 :: "int \<Rightarrow> bool" where
  "in_int4 n \<longleftrightarrow> - 2147483648 \<le> n \<and> n \<le> 2147483647"

datatype movement_type = IN | OUT | TRANSFER | ADJUSTMENT

section \<open>Rows\<close>

text \<open>
  Rows follow the \<^verbatim>\<open>Row\<close> types of \<^verbatim>\<open>src/lib/supabase.ts\<close>, which give every numeric and
  key column as non-null. Of suppliers, warehouses and products only the columns that a
  constraint or a handler below reads are kept, and the table \<^verbatim>\<open>categories\<close>, which only
  products refer to, is left out.
\<close>

record supplier =
  s_id :: uuid
  s_name :: string

record warehouse =
  w_id :: uuid
  w_name :: string

record product =
  p_id :: uuid
  p_sku :: string
  p_name :: string
  p_supplier_id :: "uuid option"

record stock_level =
  sl_id :: uuid
  sl_product_id :: uuid
  sl_warehouse_id :: uuid
  sl_quantity :: int
  sl_reserved_quantity :: int
  sl_available_quantity :: int
  sl_last_counted_at :: "timestamptz option"
  sl_updated_at :: timestamptz

record stock_movement =
  sm_id :: uuid
  sm_product_id :: uuid
  sm_warehouse_id :: uuid
  sm_movement_type :: movement_type
  sm_quantity :: int
  sm_reference_number :: string
  sm_notes :: string
  sm_created_by :: "uuid option"
  sm_created_at :: timestamptz

datatype order_status = DRAFT | PENDING | RECEIVED | CANCELLED

text \<open>
  \<^verbatim>\<open>decimal(10,2)\<close> columns hold a whole number of hundredths (cents), below \<open>10^8\<close> in
  absolute value.
\<close>

record purchase_order =
  po_id :: uuid
  po_number :: string
  po_supplier_id :: uuid
  po_warehouse_id :: uuid
  po_order_date :: string
  po_expected_date :: "string option"
  po_status :: order_status
  po_total_amount :: int
  po_notes :: string
  po_created_by :: "uuid option"
  po_created_at :: timestamptz
  po_updated_at :: timestamptz

record purchase_order_item =
  it_id :: uuid
  it_purchase_order_id :: uuid
  it_product_id :: uuid
  it_quantity_ordered :: int
  it_quantity_received :: int
  it_unit_price :: int
  it_total_price :: int
  it_created_at :: timestamptz

section \<open>The store\<close>

text \<open>
  The tables, the identifier generator and the clock. The policies of the migration allow
  an authenticated caller every command on every row, and every request below is one of
  an authenticated caller.
\<close>

record db =
  suppliers :: "supplier list"
  warehouses :: "warehouse list"
  products :: "product list"
  stock_levels :: "stock_level list"
  stock_movements :: "stock_movement list"
  purchase_orders :: "purchase_order list"
  purchase_order_items :: "purchase_order_item list"
  next_uuid :: uuid
  clock :: timestamptz

definition empty_db :: db where
  "empty_db = \<lparr>suppliers = [], warehouses = [], products = [], stock_levels = [],
     stock_movements = [], purchase_orders = [], purchase_order_items = [],
     next_uuid = 0, clock = 0\<rparr>"

definition supplier_exists :: "db \<Rightarrow> uuid \<Rightarrow> bool" where
  "supplier_exists d i = list_ex (\<lambda>r. s_id r = i) (suppliers d)"

definition warehouse_exists :: "db \<Rightarrow> uuid \<Rightarrow> bool" where
  "warehouse_exists d i = list_ex (\<lambda>r. w_id r = i) (warehouses d)"

definition product_exists :: "db \<Rightarrow> uuid \<Rightarrow> bool" where
  "product_exists d i = list_ex (\<lambda>r. p_id r = i) (products d)"

definition purchase_order_exists :: "db \<Rightarrow> uuid \<Rightarrow> bool" where
  "purchase_order_exists d i = list_ex (\<lambda>r. po_id r = i) (purchase_orders d)"

text \<open>A request that comes back with an error leaves the store as it was.\<close>

definition keep :: "db \<Rightarrow> error + db \<Rightarrow> db" where
  "keep d r = (case r of Inl e \<Rightarrow> d | Inr d' \<Rightarrow> d')"

section \<open>Table \<^verbatim>\<open>stock_levels\<close>\<close>

text \<open>
  The payloads are the \<^verbatim>\<open>Insert\<close> and \<^verbatim>\<open>Update\<close> types of \<^verbatim>\<open>src/lib/supabase.ts\<close>, where
  \<open>None\<close> is an absent key. The client is created without that type
  (\<^verbatim>\<open>createClient(supabaseUrl, supabaseAnonKey)\<close>), so a payload can also carry a key for
  the generated column: \<open>sli_available_quantity\<close> and \<open>slu_available_quantity\<close> stand for
  it.
\<close>

record stock_level_insert =
  sli_product_id :: uuid
  sli_warehouse_id :: uuid
  sli_quantity :: "int option"
  sli_reserved_quantity :: "int option"
  sli_available_quantity :: "int option"
  sli_last_counted_at :: "timestamptz option"
  sli_updated_at :: "timestamptz option"

record stock_level_update =
  slu_product_id :: "uuid option"
  slu_warehouse_id :: "uuid option"
  slu_quantity :: "int option"
  slu_reserved_quantity :: "int option"
  slu_available_quantity :: "int option"
  slu_last_counted_at :: "timestamptz option option"
  slu_updated_at :: "timestamptz option"

definition sl_pair :: "stock_level \<Rightarrow> uuid \<times> uuid" where
  "sl_pair r = (sl_product_id r, sl_warehouse_id r)"

text \<open>
  \<^verbatim>\<open>quantity integer DEFAULT 0\<close>, \<^verbatim>\<open>reserved_quantity integer DEFAULT 0\<close>,
  \<^verbatim>\<open>available_quantity integer GENERATED ALWAYS AS (quantity - reserved_quantity) STORED\<close>,
  \<^verbatim>\<open>updated_at timestamptz DEFAULT now()\<close>.
\<close>

definition new_stock_level :: "uuid \<Rightarrow> timestamptz \<Rightarrow> stock_level_insert \<Rightarrow> stock_level" where
  "new_stock_level i now ins =
     (let q = (case sli_quantity ins of None \<Rightarrow> 0 | Some v \<Rightarrow> v);
          res = (case sli_reserved_quantity ins of None \<Rightarrow> 0 | Some v \<Rightarrow> v)
      in \<lparr>sl_id = i,
          sl_product_id = sli_product_id ins,
          sl_warehouse_id = sli_warehouse_id ins,
          sl_quantity = q,
          sl_reserved_quantity = res,
          sl_available_quantity = q - res,
          sl_last_counted_at = sli_last_counted_at ins,
          sl_updated_at = (case sli_updated_at ins of None \<Rightarrow> now | Some t \<Rightarrow> t)\<rparr>)"

definition stock_level_in_range :: "stock_level \<Rightarrow> bool" where
  "stock_level_in_range r \<longleftrightarrow>
     in_int4 (sl_quantity r) \<and> in_int4 (sl_reserved_quantity r) \<and>
     in_int4 (sl_available_quantity r)"

definition stock_level_refs_ok :: "db \<Rightarrow> stock_level \<Rightarrow> bool" where
  "stock_level_refs_ok d r \<longleftrightarrow>
     product_exists d (sl_product_id r) \<and> warehouse_exists d (sl_warehouse_id r)"

text \<open>
  \<^verbatim>\<open>INSERT INTO stock_levels\<close>: the generated column cannot be given a value, the numbers
  must fit their columns, \<^verbatim>\<open>UNIQUE(product_id, warehouse_id)\<close> and both foreign keys must
  hold.
\<close>

definition insert_stock_level :: "db \<Rightarrow> stock_level_insert \<Rightarrow> error + db" where
  "insert_stock_level d ins =
     (let row = new_stock_level (next_uuid d) (clock d) ins in
      if sli_available_quantity ins \<noteq> None then Inl GeneratedAlways
      else if stock_level_in_range row then
        if list_ex (\<lambda>r. sl_pair r = sl_pair row) (stock_levels d) then Inl ConstraintViolation
        else if stock_level_refs_ok d row then
          Inr (d\<lparr>stock_levels := stock_levels d @ [row], next_uuid := Suc (next_uuid d)\<rparr>)
        else Inl ConstraintViolation
      else Inl NumericValueOutOfRange)"

text \<open>
  \<^verbatim>\<open>UPDATE stock_levels SET ... WHERE id = i\<close>. The trigger
  \<^verbatim>\<open>update_stock_levels_updated_at\<close> runs \<^verbatim>\<open>NEW.updated_at = now()\<close> before the row is
  written, so the time a caller sends is overwritten.
\<close>

definition apply_stock_level_update ::
  "timestamptz \<Rightarrow> stock_level_update \<Rightarrow> stock_level \<Rightarrow> stock_level" where
  "apply_stock_level_update now upd r =
     (let q = (case slu_quantity upd of None \<Rightarrow> sl_quantity r | Some v \<Rightarrow> v);
          res = (case slu_reserved_quantity upd of None \<Rightarrow> sl_reserved_quantity r | Some v \<Rightarrow> v)
      in \<lparr>sl_id = sl_id r,
          sl_product_id = (case slu_product_id upd of None \<Rightarrow> sl_product_id r | Some v \<Rightarrow> v),
          sl_warehouse_id = (case slu_warehouse_id upd of None \<Rightarrow> sl_warehouse_id r | Some v \<Rightarrow> v),
          sl_quantity = q,
          sl_reserved_quantity = res,
          sl_available_quantity = q - res,
          sl_last_counted_at =
            (case slu_last_counted_at upd of None \<Rightarrow> sl_last_counted_at r | Some v \<Rightarrow> v),
          sl_updated_at = now\<rparr>)"

definition update_stock_level :: "db \<Rightarrow> uuid \<Rightarrow> stock_level_update \<Rightarrow> error + db" where
  "update_stock_level d i upd =
     (let rows = map (\<lambda>r. if sl_id r = i then apply_stock_level_update (clock d) upd r else r)
                   (stock_levels d);
          written = filter (\<lambda>r. sl_id r = i) rows
      in if slu_available_quantity upd \<noteq> None then Inl GeneratedAlways
         else if list_all stock_level_in_range written then
           if distinct (map sl_pair rows) then
             if list_all (stock_level_refs_ok d) written then Inr (d\<lparr>stock_levels := rows\<rparr>)
             else Inl ConstraintViolation
           else Inl ConstraintViolation
         else Inl NumericValueOutOfRange)"

definition delete_stock_level :: "db \<Rightarrow> uuid \<Rightarrow> error + db" where
  "delete_stock_level d i =
     Inr (d\<lparr>stock_levels := filter (\<lambda>r. sl_id r \<noteq> i) (stock_levels d)\<rparr>)"

text \<open>
  \<^verbatim>\<open>.select('*').eq('product_id', p).eq('warehouse_id', w).maybeSingle()\<close>: no row is
  \<^verbatim>\<open>null\<close>, one row is that row, more rows are an error.
\<close>

definition select_stock_level :: "db \<Rightarrow> uuid \<Rightarrow> uuid \<Rightarrow> error + stock_level option" where
  "select_stock_level d p w =
     (case filter (\<lambda>r. sl_product_id r = p \<and> sl_warehouse_id r = w) (stock_levels d) of
        [] \<Rightarrow> Inr None
      | [r] \<Rightarrow> Inr (Some r)
      | _ \<Rightarrow> Inl MultipleRows)"

section \<open>Table \<^verbatim>\<open>stock_movements\<close>\<close>

record stock_movement_insert =
  smi_product_id :: uuid
  smi_warehouse_id :: uuid
  smi_movement_type :: movement_type
  smi_quantity :: int
  smi_reference_number :: string
  smi_notes :: string

text \<open>
  \<^verbatim>\<open>quantity integer NOT NULL\<close>, both foreign keys, \<^verbatim>\<open>created_at timestamptz DEFAULT now()\<close>.
  The check on \<^verbatim>\<open>movement_type\<close> holds for every value of the type.
\<close>

definition insert_stock_movement :: "db \<Rightarrow> stock_movement_insert \<Rightarrow> error + db" where
  "insert_stock_movement d m =
     (if in_int4 (smi_quantity m) then
        if product_exists d (smi_product_id m) \<and> warehouse_exists d (smi_warehouse_id m) then
          Inr (d\<lparr>stock_movements := stock_movements d @
                 [\<lparr>sm_id = next_uuid d,
                   sm_product_id = smi_product_id m,
                   sm_warehouse_id = smi_warehouse_id m,
                   sm_movement_type = smi_movement_type m,
                   sm_quantity = smi_quantity m,
                   sm_reference_number = smi_reference_number m,
                   sm_notes = smi_notes m,
                   sm_created_by = None,
                   sm_created_at = clock d\<rparr>],
               next_uuid := Suc (next_uuid d)\<rparr>)
        else Inl ConstraintViolation
      else Inl NumericValueOutOfRange)"

section \<open>Requests\<close>

text \<open>
  A request of the client either resolves, with the answer of the store or with an error of
  its own, or rejects, which is an exception at the \<^verbatim>\<open>await\<close>. An error of the store is
  part of the answer, \<^verbatim>\<open>{ data, error }\<close>: the handlers that stop on it throw it themselves
  (\<^verbatim>\<open>if (error) throw error\<close> in \<^verbatim>\<open>Orders.tsx\<close> and \<^verbatim>\<open>Suppliers.tsx\<close>). Which of the three
  happens to the n-th request of a handler is a parameter, \<open>nat \<Rightarrow> fault\<close>. A request that
  fails on its own has not changed the store.
\<close>

datatype fault = NoFault | ErrorResult | Rejects

datatype 'a response = Rejected | Resolved "error + 'a"

definition send :: "fault \<Rightarrow> error + 'a \<Rightarrow> 'a response" where
  "send f r = (case f of NoFault \<Rightarrow> Resolved r
                       | ErrorResult \<Rightarrow> Resolved (Inl RequestFailed)
                       | Rejects \<Rightarrow> Rejected)"

definition no_faults :: "nat \<Rightarrow> fault" where
  "no_faults n = NoFault"

section \<open>\<^verbatim>\<open>handleSubmit\<close> of \<^verbatim>\<open>components/StockMovements.tsx\<close>\<close>

text \<open>
  \<open>fd_quantity\<close> is the number \<^verbatim>\<open>parseInt(formData.quantity)\<close>; the input is
  \<^verbatim>\<open>type="number" required\<close>, and the case that it is not a number is left out. The two
  selects are \<^verbatim>\<open>required\<close> and offer identifiers only.
\<close>

record formData =
  fd_product_id :: uuid
  fd_warehouse_id :: uuid
  fd_movement_type :: movement_type
  fd_quantity :: int
  fd_reference_number :: string
  fd_notes :: string

definition movementData :: "formData \<Rightarrow> stock_movement_insert" where
  "movementData f =
     \<lparr>smi_product_id = fd_product_id f,
      smi_warehouse_id = fd_warehouse_id f,
      smi_movement_type = fd_movement_type f,
      smi_quantity = fd_quantity f,
      smi_reference_number = fd_reference_number f,
      smi_notes = fd_notes f\<rparr>"

definition quantityChange :: "formData \<Rightarrow> int" where
  "quantityChange f =
     (if fd_movement_type f = IN \<or> fd_movement_type f = ADJUSTMENT
      then fd_quantity f else - fd_quantity f)"

definition level_update :: "stock_level \<Rightarrow> formData \<Rightarrow> timestamptz \<Rightarrow> stock_level_update" where
  "level_update currentStock f today =
     \<lparr>slu_product_id = None, slu_warehouse_id = None,
      slu_quantity = Some (sl_quantity currentStock + quantityChange f),
      slu_reserved_quantity = None, slu_available_quantity = None,
      slu_last_counted_at = None,
      slu_updated_at = Some today\<rparr>"

definition level_insert :: "formData \<Rightarrow> stock_level_insert" where
  "level_insert f =
     \<lparr>sli_product_id = fd_product_id f,
      sli_warehouse_id = fd_warehouse_id f,
      sli_quantity = Some (max 0 (quantityChange f)),
      sli_reserved_quantity = None, sli_available_quantity = None,
      sli_last_counted_at = None, sli_updated_at = None\<rparr>"

text \<open>
  The handler awaits three requests inside one \<^verbatim>\<open>try\<close>. It reads \<^verbatim>\<open>data\<close> of the second
  and ignores the \<^verbatim>\<open>error\<close> of all three, so only a rejected request ends it early (the
  \<^verbatim>\<open>catch\<close> logs and returns). \<open>today\<close> is \<^verbatim>\<open>new Date()\<close> of the browser. The result is the
  store after the handler.
\<close>

definition handleSubmit :: "(nat \<Rightarrow> fault) \<Rightarrow> timestamptz \<Rightarrow> db \<Rightarrow> formData \<Rightarrow> db" where
  "handleSubmit faults today d f =
     (case send (faults 0) (insert_stock_movement d (movementData f)) of
        Rejected \<Rightarrow> d
      | Resolved inserted \<Rightarrow>
          (let d1 = keep d inserted in
           case send (faults 1) (select_stock_level d1 (fd_product_id f) (fd_warehouse_id f)) of
             Rejected \<Rightarrow> d1
           | Resolved selected \<Rightarrow>
               (let currentStock = (case selected of Inl e \<Rightarrow> None | Inr row \<Rightarrow> row) in
                case currentStock of
                  Some cs \<Rightarrow>
                    (case send (faults 2)
                            (update_stock_level d1 (sl_id cs) (level_update cs f today)) of
                       Rejected \<Rightarrow> d1
                     | Resolved updated \<Rightarrow> keep d1 updated)
                | None \<Rightarrow>
                    (case send (faults 2) (insert_stock_level d1 (level_insert f)) of
                       Rejected \<Rightarrow> d1
                     | Resolved created \<Rightarrow> keep d1 created))))"

section \<open>Tables \<^verbatim>\<open>suppliers\<close>, \<^verbatim>\<open>warehouses\<close> and \<^verbatim>\<open>products\<close>\<close>

definition insert_supplier :: "db \<Rightarrow> string \<Rightarrow> error + db" where
  "insert_supplier d name =
     Inr (d\<lparr>suppliers := suppliers d @ [\<lparr>s_id = next_uuid d, s_name = name\<rparr>],
           next_uuid := Suc (next_uuid d)\<rparr>)"

definition insert_warehouse :: "db \<Rightarrow> string \<Rightarrow> error + db" where
  "insert_warehouse d name =
     Inr (d\<lparr>warehouses := warehouses d @ [\<lparr>w_id = next_uuid d, w_name = name\<rparr>],
           next_uuid := Suc (next_uuid d)\<rparr>)"

text \<open>\<^verbatim>\<open>sku text UNIQUE NOT NULL\<close>, \<^verbatim>\<open>supplier_id uuid REFERENCES suppliers(id)\<close>.\<close>

definition insert_product :: "db \<Rightarrow> string \<Rightarrow> string \<Rightarrow> uuid option \<Rightarrow> error + db" where
  "insert_product d sku name supp =
     (if list_ex (\<lambda>r. p_sku r = sku) (products d) then Inl ConstraintViolation
      else if (case supp of None \<Rightarrow> True | Some s \<Rightarrow> supplier_exists d s) then
        Inr (d\<lparr>products := products d @
               [\<lparr>p_id = next_uuid d, p_sku = sku, p_name = name, p_supplier_id = supp\<rparr>],
             next_uuid := Suc (next_uuid d)\<rparr>)
      else Inl ConstraintViolation)"

text \<open>
  \<^verbatim>\<open>DELETE FROM suppliers WHERE id = i\<close>: \<^verbatim>\<open>purchase_orders.supplier_id\<close> is
  \<^verbatim>\<open>ON DELETE RESTRICT\<close>, \<^verbatim>\<open>products.supplier_id\<close> is \<^verbatim>\<open>ON DELETE SET NULL\<close>.
\<close>

definition delete_supplier :: "db \<Rightarrow> uuid \<Rightarrow> error + db" where
  "delete_supplier d i =
     (if list_ex (\<lambda>r. po_supplier_id r = i) (purchase_orders d) then Inl RestrictedDelete
      else Inr (d\<lparr>suppliers := filter (\<lambda>r. s_id r \<noteq> i) (suppliers d),
                 products := map (\<lambda>r. if p_supplier_id r = Some i
                                         then r\<lparr>p_supplier_id := None\<rparr> else r) (products d)\<rparr>))"

text \<open>
  \<^verbatim>\<open>DELETE FROM warehouses WHERE id = i\<close>: \<^verbatim>\<open>purchase_orders.warehouse_id\<close> is
  \<^verbatim>\<open>ON DELETE RESTRICT\<close>; \<^verbatim>\<open>stock_levels.warehouse_id\<close> and
  \<^verbatim>\<open>stock_movements.warehouse_id\<close> are \<^verbatim>\<open>ON DELETE CASCADE\<close>.
\<close>

definition delete_warehouse :: "db \<Rightarrow> uuid \<Rightarrow> error + db" where
  "delete_warehouse d i =
     (if list_ex (\<lambda>r. po_warehouse_id r = i) (purchase_orders d) then Inl RestrictedDelete
      else Inr (d\<lparr>warehouses := filter (\<lambda>r. w_id r \<noteq> i) (warehouses d),
                 stock_levels := filter (\<lambda>r. sl_warehouse_id r \<noteq> i) (stock_levels d),
                 stock_movements := filter (\<lambda>r. sm_warehouse_id r \<noteq> i) (stock_movements d)\<rparr>))"

text \<open>
  \<^verbatim>\<open>DELETE FROM products WHERE id = i\<close>: \<^verbatim>\<open>purchase_order_items.product_id\<close> is
  \<^verbatim>\<open>ON DELETE RESTRICT\<close>; \<^verbatim>\<open>stock_levels.product_id\<close> and \<^verbatim>\<open>stock_movements.product_id\<close>
  are \<^verbatim>\<open>ON DELETE CASCADE\<close>.
\<close>

definition delete_product :: "db \<Rightarrow> uuid \<Rightarrow> error + db" where
  "delete_product d i =
     (if list_ex (\<lambda>r. it_product_id r = i) (purchase_order_items d) then Inl RestrictedDelete
      else Inr (d\<lparr>products := filter (\<lambda>r. p_id r \<noteq> i) (products d),
                 stock_levels := filter (\<lambda>r. sl_product_id r \<noteq> i) (stock_levels d),
                 stock_movements := filter (\<lambda>r. sm_product_id r \<noteq> i) (stock_movements d)\<rparr>))"

section \<open>Numbers sent to \<^verbatim>\<open>integer\<close> and \<^verbatim>\<open>decimal(10,2)\<close> columns\<close>

text \<open>
  The order form reads its numbers with \<^verbatim>\<open>parseFloat\<close>, so they need not be whole.
  A number of the client is a rational here: the binary rounding of its arithmetic is not
  modelled. An \<^verbatim>\<open>integer\<close> column rejects a number with a fraction. A \<^verbatim>\<open>decimal(10,2)\<close>
  column rounds to two fraction digits, ties away from zero, and rejects what then needs
  more than ten digits.
\<close>

definition to_int4 :: "rat \<Rightarrow> error + int" where
  "to_int4 x =
     (if of_int \<lfloor>x\<rfloor> = x then
        if in_int4 \<lfloor>x\<rfloor> then Inr \<lfloor>x\<rfloor> else Inl NumericValueOutOfRange
      else Inl InvalidTextRepresentation)"

definition round_half_away :: "rat \<Rightarrow> int" where
  "round_half_away x = (if 0 \<le> x then \<lfloor>x + 1 / 2\<rfloor> else - \<lfloor>- x + 1 / 2\<rfloor>)"

definition in_decimal_10_2 :: "int \<Rightarrow> bool" where
  "in_decimal_10_2 cents \<longleftrightarrow> \<bar>cents\<bar> < 10000000000"

definition to_decimal_10_2 :: "rat \<Rightarrow> error + int" where
  "to_decimal_10_2 x =
     (let cents = round_half_away (x * 100) in
      if in_decimal_10_2 cents then Inr cents else Inl NumericValueOutOfRange)"

section \<open>Table \<^verbatim>\<open>purchase_order_items\<close>\<close>

text \<open>
  \<open>iti_product_id = None\<close> is a text that is no identifier (the empty selection of the
  form). \<open>iti_total_price\<close> and \<open>itu_total_price\<close> stand for a key for the generated column.
\<close>

record purchase_order_item_insert =
  iti_purchase_order_id :: uuid
  iti_product_id :: "uuid option"
  iti_quantity_ordered :: "rat option"
  iti_quantity_received :: "int option"
  iti_unit_price :: "rat option"
  iti_total_price :: "rat option"

record purchase_order_item_update =
  itu_quantity_ordered :: "rat option"
  itu_quantity_received :: "int option"
  itu_unit_price :: "rat option"
  itu_total_price :: "rat option"

text \<open>
  \<^verbatim>\<open>quantity_ordered integer NOT NULL DEFAULT 0\<close>, \<^verbatim>\<open>quantity_received integer DEFAULT 0\<close>,
  \<^verbatim>\<open>unit_price decimal(10,2) DEFAULT 0\<close>,
  \<^verbatim>\<open>total_price decimal(10,2) GENERATED ALWAYS AS (quantity_ordered * unit_price) STORED\<close>.
  \<open>item_row\<close> is the row once its numbers are converted.
\<close>

definition item_row ::
  "uuid \<Rightarrow> timestamptz \<Rightarrow> uuid \<Rightarrow> uuid \<Rightarrow> int \<Rightarrow> int \<Rightarrow> int \<Rightarrow> purchase_order_item" where
  "item_row i now oid p q received price =
     \<lparr>it_id = i, it_purchase_order_id = oid, it_product_id = p,
      it_quantity_ordered = q, it_quantity_received = received,
      it_unit_price = price, it_total_price = q * price, it_created_at = now\<rparr>"

definition item_numbers :: "rat \<Rightarrow> int \<Rightarrow> rat \<Rightarrow> error + (int \<times> int \<times> int)" where
  "item_numbers q received price =
     (case to_int4 q of
        Inl e \<Rightarrow> Inl e
      | Inr q' \<Rightarrow>
          if in_int4 received then
            (case to_decimal_10_2 price of
               Inl e \<Rightarrow> Inl e
             | Inr price' \<Rightarrow>
                 if in_decimal_10_2 (q' * price') then Inr (q', received, price')
                 else Inl NumericValueOutOfRange)
          else Inl NumericValueOutOfRange)"

definition build_item :: "db \<Rightarrow> uuid \<Rightarrow> purchase_order_item_insert \<Rightarrow> error + purchase_order_item" where
  "build_item d i ins =
     (if iti_total_price ins \<noteq> None then Inl GeneratedAlways
      else case iti_product_id ins of
        None \<Rightarrow> Inl InvalidTextRepresentation
      | Some p \<Rightarrow>
          (case item_numbers (case iti_quantity_ordered ins of None \<Rightarrow> 0 | Some v \<Rightarrow> v)
                             (case iti_quantity_received ins of None \<Rightarrow> 0 | Some v \<Rightarrow> v)
                             (case iti_unit_price ins of None \<Rightarrow> 0 | Some v \<Rightarrow> v) of
             Inl e \<Rightarrow> Inl e
           | Inr (q, received, price) \<Rightarrow>
               if purchase_order_exists d (iti_purchase_order_id ins) \<and> product_exists d p
               then Inr (item_row i (clock d) (iti_purchase_order_id ins) p q received price)
               else Inl ConstraintViolation))"

text \<open>One \<^verbatim>\<open>INSERT\<close> of several rows: every row is written, or none.\<close>

fun build_items :: "db \<Rightarrow> uuid \<Rightarrow> purchase_order_item_insert list \<Rightarrow> error + purchase_order_item list" where
  "build_items d i [] = Inr []"
| "build_items d i (ins # rest) =
     (case build_item d i ins of
        Inl e \<Rightarrow> Inl e
      | Inr row \<Rightarrow>
          (case build_items d (Suc i) rest of
             Inl e \<Rightarrow> Inl e
           | Inr rows \<Rightarrow> Inr (row # rows)))"

definition insert_purchase_order_items :: "db \<Rightarrow> purchase_order_item_insert list \<Rightarrow> error + db" where
  "insert_purchase_order_items d payload =
     (case build_items d (next_uuid d) payload of
        Inl e \<Rightarrow> Inl e
      | Inr rows \<Rightarrow>
          Inr (d\<lparr>purchase_order_items := purchase_order_items d @ rows,
                 next_uuid := next_uuid d + length rows\<rparr>))"

definition update_item_row :: "purchase_order_item_update \<Rightarrow> purchase_order_item \<Rightarrow> error + purchase_order_item" where
  "update_item_row upd r =
     (case item_numbers
             (case itu_quantity_ordered upd of None \<Rightarrow> of_int (it_quantity_ordered r) | Some v \<Rightarrow> v)
             (case itu_quantity_received upd of None \<Rightarrow> it_quantity_received r | Some v \<Rightarrow> v)
             (case itu_unit_price upd of None \<Rightarrow> of_int (it_unit_price r) / 100 | Some v \<Rightarrow> v) of
        Inl e \<Rightarrow> Inl e
      | Inr (q, received, price) \<Rightarrow>
          Inr (item_row (it_id r) (it_created_at r) (it_purchase_order_id r) (it_product_id r)
                 q received price))"

fun update_item_rows ::
  "uuid \<Rightarrow> purchase_order_item_update \<Rightarrow> purchase_order_item list \<Rightarrow> error + purchase_order_item list" where
  "update_item_rows i upd [] = Inr []"
| "update_item_rows i upd (r # rest) =
     (case (if it_id r = i then update_item_row upd r else Inr r) of
        Inl e \<Rightarrow> Inl e
      | Inr r' \<Rightarrow>
          (case update_item_rows i upd rest of
             Inl e \<Rightarrow> Inl e
           | Inr rows \<Rightarrow> Inr (r' # rows)))"

text \<open>\<^verbatim>\<open>UPDATE purchase_order_items SET ... WHERE id = i\<close>, of the numeric columns.\<close>

definition update_purchase_order_item :: "db \<Rightarrow> uuid \<Rightarrow> purchase_order_item_update \<Rightarrow> error + db" where
  "update_purchase_order_item d i upd =
     (if itu_total_price upd \<noteq> None then Inl GeneratedAlways
      else case update_item_rows i upd (purchase_order_items d) of
        Inl e \<Rightarrow> Inl e
      | Inr rows \<Rightarrow> Inr (d\<lparr>purchase_order_items := rows\<rparr>))"

text \<open>\<^verbatim>\<open>.from('purchase_order_items').delete().eq('purchase_order_id', oid)\<close>.\<close>

definition delete_items_of_order :: "db \<Rightarrow> uuid \<Rightarrow> error + db" where
  "delete_items_of_order d oid =
     Inr (d\<lparr>purchase_order_items :=
              filter (\<lambda>r. it_purchase_order_id r \<noteq> oid) (purchase_order_items d)\<rparr>)"

section \<open>Table \<^verbatim>\<open>purchase_orders\<close>\<close>

text \<open>
  The two payloads \<^verbatim>\<open>handleSave\<close> sends. An identifier of the form is \<open>None\<close> when nothing
  is selected (the empty text, which is no identifier). Dates are kept as the text sent;
  that a date is well written is not checked here.
\<close>

record purchase_order_insert =
  poi_po_number :: string
  poi_supplier_id :: "uuid option"
  poi_warehouse_id :: "uuid option"
  poi_order_date :: string
  poi_expected_date :: "string option"
  poi_status :: order_status
  poi_total_amount :: rat
  poi_notes :: string

record purchase_order_update =
  pou_supplier_id :: "uuid option"
  pou_warehouse_id :: "uuid option"
  pou_order_date :: string
  pou_expected_date :: "string option"
  pou_status :: order_status
  pou_total_amount :: rat
  pou_notes :: string

text \<open>
  \<^verbatim>\<open>.insert({...}).select().single()\<close>: \<^verbatim>\<open>po_number text UNIQUE NOT NULL\<close>,
  \<^verbatim>\<open>total_amount decimal(10,2)\<close>, both foreign keys. The answer carries the new row.
\<close>

definition insert_purchase_order :: "db \<Rightarrow> purchase_order_insert \<Rightarrow> error + db \<times> purchase_order" where
  "insert_purchase_order d ins =
     (case (poi_supplier_id ins, poi_warehouse_id ins) of
        (Some s, Some w) \<Rightarrow>
          (case to_decimal_10_2 (poi_total_amount ins) of
             Inl e \<Rightarrow> Inl e
           | Inr total_amount \<Rightarrow>
               if list_ex (\<lambda>r. po_number r = poi_po_number ins) (purchase_orders d)
               then Inl ConstraintViolation
               else if supplier_exists d s \<and> warehouse_exists d w then
                 (let row = \<lparr>po_id = next_uuid d, po_number = poi_po_number ins,
                              po_supplier_id = s, po_warehouse_id = w,
                              po_order_date = poi_order_date ins,
                              po_expected_date = poi_expected_date ins,
                              po_status = poi_status ins, po_total_amount = total_amount,
                              po_notes = poi_notes ins, po_created_by = None,
                              po_created_at = clock d, po_updated_at = clock d\<rparr>
                  in Inr (d\<lparr>purchase_orders := purchase_orders d @ [row],
                            next_uuid := Suc (next_uuid d)\<rparr>, row))
               else Inl ConstraintViolation)
      | _ \<Rightarrow> Inl InvalidTextRepresentation)"

text \<open>
  \<^verbatim>\<open>.update({...}).eq('id', i)\<close>; the trigger \<^verbatim>\<open>update_purchase_orders_updated_at\<close> sets
  \<^verbatim>\<open>updated_at\<close>. The foreign keys are checked when a row is written.
\<close>

definition update_purchase_order :: "db \<Rightarrow> uuid \<Rightarrow> purchase_order_update \<Rightarrow> error + db" where
  "update_purchase_order d i upd =
     (case (pou_supplier_id upd, pou_warehouse_id upd) of
        (Some s, Some w) \<Rightarrow>
          (case to_decimal_10_2 (pou_total_amount upd) of
             Inl e \<Rightarrow> Inl e
           | Inr total_amount \<Rightarrow>
               if purchase_order_exists d i \<and> \<not> (supplier_exists d s \<and> warehouse_exists d w)
               then Inl ConstraintViolation
               else Inr (d\<lparr>purchase_orders :=
                     map (\<lambda>r. if po_id r = i
                               then r\<lparr>po_supplier_id := s, po_warehouse_id := w,
                                      po_order_date := pou_order_date upd,
                                      po_expected_date := pou_expected_date upd,
                                      po_status := pou_status upd, po_total_amount := total_amount,
                                      po_notes := pou_notes upd, po_updated_at := clock d\<rparr>
                               else r) (purchase_orders d)\<rparr>))
      | _ \<Rightarrow> Inl InvalidTextRepresentation)"

text \<open>
  \<^verbatim>\<open>DELETE FROM purchase_orders WHERE id = i\<close>: \<^verbatim>\<open>purchase_order_items.purchase_order_id\<close>
  is \<^verbatim>\<open>ON DELETE CASCADE\<close>.
\<close>

definition delete_purchase_order :: "db \<Rightarrow> uuid \<Rightarrow> error + db" where
  "delete_purchase_order d i =
     Inr (d\<lparr>purchase_orders := filter (\<lambda>r. po_id r \<noteq> i) (purchase_orders d),
           purchase_order_items :=
             filter (\<lambda>r. it_purchase_order_id r \<noteq> i) (purchase_order_items d)\<rparr>)"

section \<open>\<^verbatim>\<open>handleSave\<close> of \<^verbatim>\<open>components/Orders.tsx\<close>\<close>

record OrderItem =
  oi_product_id :: "uuid option"
  oi_quantity_ordered :: rat
  oi_quantity_received :: int
  oi_unit_price :: rat

record orderFormData =
  of_po_number :: string
  of_supplier_id :: "uuid option"
  of_warehouse_id :: "uuid option"
  of_order_date :: string
  of_expected_date :: string
  of_status :: order_status
  of_notes :: string

datatype modalMode = Create | Edit | View

text \<open>\<^verbatim>\<open>orderItems.reduce((sum, item) => sum + item.quantity_ordered * item.unit_price, 0)\<close>\<close>

definition calculateTotal :: "OrderItem list \<Rightarrow> rat" where
  "calculateTotal orderItems =
     foldl (\<lambda>sum item. sum + oi_quantity_ordered item * oi_unit_price item) 0 orderItems"

definition item_payload :: "uuid \<Rightarrow> OrderItem \<Rightarrow> purchase_order_item_insert" where
  "item_payload oid item =
     \<lparr>iti_purchase_order_id = oid,
      iti_product_id = oi_product_id item,
      iti_quantity_ordered = Some (oi_quantity_ordered item),
      iti_quantity_received = Some (oi_quantity_received item),
      iti_unit_price = Some (oi_unit_price item),
      iti_total_price = None\<rparr>"

text \<open>\<^verbatim>\<open>formData.expected_date || null\<close>\<close>

definition or_null :: "string \<Rightarrow> string option" where
  "or_null s = (if s = [] then None else Some s)"

definition order_insert :: "orderFormData \<Rightarrow> rat \<Rightarrow> purchase_order_insert" where
  "order_insert f total_amount =
     \<lparr>poi_po_number = of_po_number f, poi_supplier_id = of_supplier_id f,
      poi_warehouse_id = of_warehouse_id f, poi_order_date = of_order_date f,
      poi_expected_date = or_null (of_expected_date f), poi_status = of_status f,
      poi_total_amount = total_amount, poi_notes = of_notes f\<rparr>"

definition order_update :: "orderFormData \<Rightarrow> rat \<Rightarrow> purchase_order_update" where
  "order_update f total_amount =
     \<lparr>pou_supplier_id = of_supplier_id f,
      pou_warehouse_id = of_warehouse_id f, pou_order_date = of_order_date f,
      pou_expected_date = or_null (of_expected_date f), pou_status = of_status f,
      pou_total_amount = total_amount, pou_notes = of_notes f\<rparr>"

text \<open>
  The handler ends in one of two ways: it closes the dialog (\<open>Saved\<close>), or an exception
  reaches its \<^verbatim>\<open>catch\<close>, which shows the alert (\<open>Alerted\<close>). The result is that and the
  store it leaves.
\<close>

datatype outcome = Saved | Alerted

text \<open>The items are sent when \<^verbatim>\<open>orderItems.length > 0\<close>, with \<^verbatim>\<open>if (itemsError) throw\<close>.\<close>

definition save_items :: "fault \<Rightarrow> db \<Rightarrow> uuid \<Rightarrow> OrderItem list \<Rightarrow> outcome \<times> db" where
  "save_items f d oid orderItems =
     (if length orderItems > 0 then
        (case send f (insert_purchase_order_items d (map (item_payload oid) orderItems)) of
           Rejected \<Rightarrow> (Alerted, d)
         | Resolved (Inl itemsError) \<Rightarrow> (Alerted, d)
         | Resolved (Inr d') \<Rightarrow> (Saved, d'))
      else (Saved, d))"

definition handleSave ::
  "(nat \<Rightarrow> fault) \<Rightarrow> db \<Rightarrow> modalMode \<Rightarrow> uuid option \<Rightarrow> orderFormData \<Rightarrow> OrderItem list
     \<Rightarrow> outcome \<times> db" where
  "handleSave faults d mode selectedOrder f orderItems =
     (let total_amount = calculateTotal orderItems in
      if mode = Create then
        (case send (faults 0) (insert_purchase_order d (order_insert f total_amount)) of
           Rejected \<Rightarrow> (Alerted, d)
         | Resolved (Inl orderError) \<Rightarrow> (Alerted, d)
         | Resolved (Inr (d1, orderData)) \<Rightarrow>
             save_items (faults 1) d1 (po_id orderData) orderItems)
      else
        (case (mode, selectedOrder) of
           (Edit, Some selected) \<Rightarrow>
             (case send (faults 0)
                     (update_purchase_order d selected (order_update f total_amount)) of
                Rejected \<Rightarrow> (Alerted, d)
              | Resolved (Inl orderError) \<Rightarrow> (Alerted, d)
              | Resolved (Inr d1) \<Rightarrow>
                  (case send (faults 1) (delete_items_of_order d1 selected) of
                     Rejected \<Rightarrow> (Alerted, d1)
                   | Resolved deleted \<Rightarrow>
                       save_items (faults 2) (keep d1 deleted) selected orderItems))
         | _ \<Rightarrow> (Saved, d)))"




section \<open>Operations on the store\<close>

text \<open>
  What a caller can do to the store: the creations and deletions of the entities that
  stock levels and order items refer to, the writes of \<^verbatim>\<open>stock_levels\<close> and
  \<^verbatim>\<open>purchase_order_items\<close>, the two handlers, and the passing of time.
\<close>

datatype operation =
    CreateSupplier string
  | CreateWarehouse string
  | CreateProduct string string "uuid option"
  | DeleteSupplier uuid
  | DeleteWarehouse uuid
  | DeleteProduct uuid
  | DeletePurchaseOrder uuid
  | CreateStockLevel stock_level_insert
  | UpdateStockLevel uuid stock_level_update
  | DeleteStockLevel uuid
  | CreateItems "purchase_order_item_insert list"
  | UpdateItem uuid purchase_order_item_update
  | SubmitMovement "nat \<Rightarrow> fault" timestamptz formData
  | SaveOrder "nat \<Rightarrow> fault" modalMode "uuid option" orderFormData "OrderItem list"
  | Tick

fun exec :: "db \<Rightarrow> operation \<Rightarrow> db" where
  "exec d (CreateSupplier name) = keep d (insert_supplier d name)"
| "exec d (CreateWarehouse name) = keep d (insert_warehouse d name)"
| "exec d (CreateProduct sku name supp) = keep d (insert_product d sku name supp)"
| "exec d (DeleteSupplier i) = keep d (delete_supplier d i)"
| "exec d (DeleteWarehouse i) = keep d (delete_warehouse d i)"
| "exec d (DeleteProduct i) = keep d (delete_product d i)"
| "exec d (DeletePurchaseOrder i) = keep d (delete_purchase_order d i)"
| "exec d (CreateStockLevel ins) = keep d (insert_stock_level d ins)"
| "exec d (UpdateStockLevel i upd) = keep d (update_stock_level d i upd)"
| "exec d (DeleteStockLevel i) = keep d (delete_stock_level d i)"
| "exec d (CreateItems payload) = keep d (insert_purchase_order_items d payload)"
| "exec d (UpdateItem i upd) = keep d (update_purchase_order_item d i upd)"
| "exec d (SubmitMovement faults today f) = handleSubmit faults today d f"
| "exec d (SaveOrder faults mode selectedOrder f orderItems) =
     snd (handleSave faults d mode selectedOrder f orderItems)"
| "exec d Tick = d\<lparr>clock := Suc (clock d)\<rparr>"

definition run :: "operation list \<Rightarrow> db" where
  "run ops = foldl exec empty_db ops"

section \<open>Well-formed stores\<close>

text \<open>
  What the primary keys, the unique constraint on \<^verbatim>\<open>stock_levels\<close>, the two generated
  columns and the identifier generator maintain. Every store that the operations can
  reach is well formed (\<open>wf_db_run\<close> below).
\<close>

definition available_ok :: "stock_level \<Rightarrow> bool" where
  "available_ok r \<longleftrightarrow> sl_available_quantity r = sl_quantity r - sl_reserved_quantity r"

definition total_ok :: "purchase_order_item \<Rightarrow> bool" where
  "total_ok r \<longleftrightarrow> it_total_price r = it_quantity_ordered r * it_unit_price r"

definition wf_levels :: "db \<Rightarrow> bool" where
  "wf_levels d \<longleftrightarrow>
     distinct (map sl_id (stock_levels d)) \<and>
     list_all (\<lambda>r. sl_id r < next_uuid d) (stock_levels d) \<and>
     distinct (map sl_pair (stock_levels d)) \<and>
     list_all available_ok (stock_levels d) \<and>
     list_all stock_level_in_range (stock_levels d)"

definition wf_orders :: "db \<Rightarrow> bool" where
  "wf_orders d \<longleftrightarrow>
     list_all (\<lambda>r. po_id r < next_uuid d) (purchase_orders d) \<and>
     list_all (\<lambda>r. it_id r < next_uuid d \<and> it_purchase_order_id r < next_uuid d)
       (purchase_order_items d) \<and>
     list_all total_ok (purchase_order_items d)"

definition wf_db :: "db \<Rightarrow> bool" where
  "wf_db d \<longleftrightarrow> wf_levels d \<and> wf_orders d"

text \<open>
  What the foreign keys maintain: every row refers to rows that exist. On such a store a
  foreign key check of a row that is written again with the keys it had cannot fail, so
  it does not matter that the updates above check every row they write. Every store that
  the operations can reach is such a store (\<open>wf_refs_run\<close> below).
\<close>

definition wf_refs :: "db \<Rightarrow> bool" where
  "wf_refs d \<longleftrightarrow>
     list_all (stock_level_refs_ok d) (stock_levels d) \<and>
     list_all (\<lambda>r. product_exists d (sm_product_id r) \<and> warehouse_exists d (sm_warehouse_id r))
       (stock_movements d) \<and>
     list_all (\<lambda>r. supplier_exists d (po_supplier_id r) \<and> warehouse_exists d (po_warehouse_id r))
       (purchase_orders d) \<and>
     list_all (\<lambda>r. purchase_order_exists d (it_purchase_order_id r) \<and>
                   product_exists d (it_product_id r)) (purchase_order_items d) \<and>
     list_all (\<lambda>r. case p_supplier_id r of None \<Rightarrow> True | Some s \<Rightarrow> supplier_exists d s)
       (products d)"

section \<open>A small store\<close>

text \<open>
  One supplier (identifier 0), one warehouse (1) and one product (2), then a first
  movement of 10 units in: the stores and forms that the instances below are run on.
\<close>

definition first_rows :: "operation list" where
  "first_rows = [CreateSupplier ''Acme'', CreateWarehouse ''Main'',
            CreateProduct ''A-1'' ''Bolt'' (Some 0)]"

definition movement :: "movement_type \<Rightarrow> int \<Rightarrow> formData" where
  "movement t q = \<lparr>fd_product_id = 2, fd_warehouse_id = 1, fd_movement_type = t,
     fd_quantity = q, fd_reference_number = [], fd_notes = []\<rparr>"

definition shop :: db where
  "shop = run first_rows"

definition stocked :: db where
  "stocked = run (first_rows @ [SubmitMovement no_faults 0 (movement IN 10)])"

text \<open>The same with a second warehouse (3) that holds 4 units of the product.\<close>

definition two_sites :: db where
  "two_sites = run (first_rows @
     [CreateWarehouse ''Annex'',
      SubmitMovement no_faults 0 (movement IN 10),
      SubmitMovement no_faults 0 ((movement IN 4)\<lparr>fd_warehouse_id := 3\<rparr>)])"

text \<open>
  An order form for that supplier and warehouse, an order line for that product, and the
  store after the order of 2 units at 1.25 and 3 units at 0.10 is saved.
\<close>

definition order_form :: orderFormData where
  "order_form = \<lparr>of_po_number = ''PO2024010007'', of_supplier_id = Some 0,
     of_warehouse_id = Some 1, of_order_date = ''2024-01-15'', of_expected_date = [],
     of_status = DRAFT, of_notes = []\<rparr>"

definition line :: "rat \<Rightarrow> rat \<Rightarrow> OrderItem" where
  "line q price = \<lparr>oi_product_id = Some 2, oi_quantity_ordered = q,
     oi_quantity_received = 0, oi_unit_price = price\<rparr>"

definition ordered :: db where
  "ordered = run (first_rows @
     [SubmitMovement no_faults 0 (movement IN 10),
      SaveOrder no_faults Create None order_form [line 2 (5 / 4), line 3 (1 / 10)]])"


lemma keep_cases: "(\<And>e. r = Inl e \<Longrightarrow> P d) \<Longrightarrow> (\<And>d'. r = Inr d' \<Longrightarrow> P d') \<Longrightarrow> P (keep d r)"
  by (cases r) (simp_all add: keep_def)

lemma sl_id_new [simp]: "sl_id (new_stock_level i now ins) = i"
  by (simp add: new_stock_level_def Let_def)

lemma available_ok_new [simp]: "available_ok (new_stock_level i now ins)"
  by (simp add: new_stock_level_def Let_def available_ok_def)

lemma insert_stock_level_Inr:
  assumes "insert_stock_level d ins = Inr d'"
  shows "d' = d\<lparr>stock_levels := stock_levels d @ [new_stock_level (next_uuid d) (clock d) ins],
                 next_uuid := Suc (next_uuid d)\<rparr>"
    and "\<not> list_ex (\<lambda>r. sl_pair r = sl_pair (new_stock_level (next_uuid d) (clock d) ins)) (stock_levels d)"
    and "stock_level_in_range (new_stock_level (next_uuid d) (clock d) ins)"
    and "sli_available_quantity ins = None"
  using assms by (auto simp: insert_stock_level_def Let_def split: if_splits)

lemma wf_levels_insert_stock_level:
  assumes "wf_levels d" "insert_stock_level d ins = Inr d'"
  shows "wf_levels d'"
proof -
  let ?row = "new_stock_level (next_uuid d) (clock d) ins"
  note r = insert_stock_level_Inr [OF assms(2)]
  have fresh: "next_uuid d \<notin> sl_id ` set (stock_levels d)"
    using assms(1) by (auto simp: wf_levels_def list_all_iff)
  have pair: "sl_pair ?row \<notin> sl_pair ` set (stock_levels d)"
    using r(2) by (auto simp: list_ex_iff)
  show ?thesis
    using assms(1) fresh pair r(3) unfolding r(1) wf_levels_def
    by (auto simp: list_all_iff)
qed

lemma sl_id_apply_update [simp]: "sl_id (apply_stock_level_update now upd r) = sl_id r"
  by (simp add: apply_stock_level_update_def Let_def)

lemma update_stock_level_range:
  assumes "update_stock_level d i upd = Inr d'" "list_all stock_level_in_range (stock_levels d)"
  shows "list_all stock_level_in_range (stock_levels d')"
proof -
  let ?f = "\<lambda>r. if sl_id r = i then apply_stock_level_update (clock d) upd r else r"
  from assms(1) have d': "stock_levels d' = map ?f (stock_levels d)"
    and w: "list_all stock_level_in_range (filter (\<lambda>r. sl_id r = i) (map ?f (stock_levels d)))"
    by (auto simp: update_stock_level_def Let_def split: if_splits)
  have "stock_level_in_range (?f r)" if "r \<in> set (stock_levels d)" for r
  proof (cases "sl_id r = i")
    case True
    then have "?f r \<in> set (filter (\<lambda>r. sl_id r = i) (map ?f (stock_levels d)))"
      using that by (auto simp: apply_stock_level_update_def Let_def)
    then show ?thesis using w unfolding list_all_iff by blast
  next
    case False
    then show ?thesis using that assms(2) by (simp add: list_all_iff)
  qed
  then have "\<forall>r \<in> set (stock_levels d). stock_level_in_range (?f r)" by blast
  then show ?thesis unfolding d' list_all_iff set_map by blast
qed

lemma available_ok_apply_update [simp]: "available_ok (apply_stock_level_update now upd r)"
  by (simp add: apply_stock_level_update_def Let_def available_ok_def)

lemma map_sl_id_update:
  "map sl_id (map (\<lambda>r. if sl_id r = i then apply_stock_level_update now upd r else r) rows) = map sl_id rows"
  by (induction rows) auto

lemma update_stock_level_Inr:
  assumes "update_stock_level d i upd = Inr d'"
  shows "d' = d\<lparr>stock_levels := map (\<lambda>r. if sl_id r = i then apply_stock_level_update (clock d) upd r else r) (stock_levels d)\<rparr>"
    and "distinct (map sl_pair (stock_levels d'))"
    and "slu_available_quantity upd = None"
  using assms by (auto simp: update_stock_level_def Let_def split: if_splits)

lemma wf_levels_update_stock_level:
  assumes "wf_levels d" "update_stock_level d i upd = Inr d'"
  shows "wf_levels d'"
proof -
  let ?rows = "map (\<lambda>r. if sl_id r = i then apply_stock_level_update (clock d) upd r else r) (stock_levels d)"
  note r = update_stock_level_Inr [OF assms(2)]
  have rows: "stock_levels d' = ?rows" and nxt: "next_uuid d' = next_uuid d" by (simp_all add: r(1))
  have ids: "map sl_id (stock_levels d') = map sl_id (stock_levels d)"
    unfolding rows by (rule map_sl_id_update)
  have a: "list_all available_ok (stock_levels d')"
    using assms(1) unfolding rows by (auto simp: wf_levels_def list_all_iff)
  have b: "list_all (\<lambda>r. sl_id r < next_uuid d') (stock_levels d')"
    using assms(1) unfolding rows nxt by (auto simp: wf_levels_def list_all_iff)
  have c: "list_all stock_level_in_range (stock_levels d')"
    using update_stock_level_range [OF assms(2)] assms(1) by (simp add: wf_levels_def)
  show ?thesis
    unfolding wf_levels_def using a b c r(2) ids assms(1) by (simp add: wf_levels_def)
qed

lemma wf_levels_filter:
  assumes "wf_levels d" "next_uuid d \<le> next_uuid d'" "stock_levels d' = filter P (stock_levels d)"
  shows "wf_levels d'"
  using assms by (auto simp: wf_levels_def list_all_iff distinct_map_filter)

lemma wf_levels_same:
  assumes "wf_levels d" "next_uuid d \<le> next_uuid d'" "stock_levels d' = stock_levels d"
  shows "wf_levels d'"
  using assms by (auto simp: wf_levels_def list_all_iff)

subsection \<open>What each request leaves untouched\<close>

lemma insert_stock_movement_Inr:
  assumes "insert_stock_movement d m = Inr d'"
  shows "stock_levels d' = stock_levels d" "purchase_orders d' = purchase_orders d"
    "purchase_order_items d' = purchase_order_items d" "next_uuid d' = Suc (next_uuid d)"
    "products d' = products d" "warehouses d' = warehouses d" "clock d' = clock d"
    "length (stock_movements d') = Suc (length (stock_movements d))"
    "in_int4 (smi_quantity m)"
    "product_exists d (smi_product_id m)" "warehouse_exists d (smi_warehouse_id m)"
  using assms by (auto simp: insert_stock_movement_def split: if_splits)

lemma wf_orders_same:
  assumes "wf_orders d" "next_uuid d \<le> next_uuid d'"
    "purchase_orders d' = purchase_orders d" "purchase_order_items d' = purchase_order_items d"
  shows "wf_orders d'"
  using assms by (auto simp: wf_orders_def list_all_iff)

lemma wf_orders_filter:
  assumes "wf_orders d" "next_uuid d \<le> next_uuid d'"
    "purchase_orders d' = filter P (purchase_orders d)"
    "purchase_order_items d' = filter Q (purchase_order_items d)"
  shows "wf_orders d'"
  using assms by (auto simp: wf_orders_def list_all_iff)

lemma wf_db_insert_stock_movement:
  assumes "wf_db d" "insert_stock_movement d m = Inr d'"
  shows "wf_db d'"
proof -
  note r = insert_stock_movement_Inr [OF assms(2)]
  have "wf_levels d'" by (rule wf_levels_same [of d]) (use assms(1) r in \<open>simp_all add: wf_db_def\<close>)
  moreover have "wf_orders d'" by (rule wf_orders_same [of d]) (use assms(1) r in \<open>simp_all add: wf_db_def\<close>)
  ultimately show ?thesis by (simp add: wf_db_def)
qed

lemma wf_db_insert_stock_level:
  assumes "wf_db d" "insert_stock_level d ins = Inr d'"
  shows "wf_db d'"
proof -
  have "wf_orders d'"
    using assms(1) by (auto simp: wf_db_def insert_stock_level_Inr(1) [OF assms(2)] intro: wf_orders_same)
  moreover have "wf_levels d'"
    using assms by (auto simp: wf_db_def intro: wf_levels_insert_stock_level)
  ultimately show ?thesis by (simp add: wf_db_def)
qed

lemma wf_db_update_stock_level:
  assumes "wf_db d" "update_stock_level d i upd = Inr d'"
  shows "wf_db d'"
proof -
  have "wf_orders d'"
    using assms(1) by (auto simp: wf_db_def update_stock_level_Inr(1) [OF assms(2)] intro: wf_orders_same)
  moreover have "wf_levels d'"
    using assms by (auto simp: wf_db_def intro: wf_levels_update_stock_level)
  ultimately show ?thesis by (simp add: wf_db_def)
qed

lemma wf_db_delete_stock_level:
  "wf_db d \<Longrightarrow> delete_stock_level d i = Inr d' \<Longrightarrow> wf_db d'"
  unfolding wf_db_def delete_stock_level_def
  by (auto intro: wf_levels_filter wf_orders_same)

lemma wf_db_insert_supplier:
  "wf_db d \<Longrightarrow> insert_supplier d name = Inr d' \<Longrightarrow> wf_db d'"
  unfolding wf_db_def insert_supplier_def
  by (auto intro: wf_levels_same wf_orders_same)

lemma wf_db_insert_warehouse:
  "wf_db d \<Longrightarrow> insert_warehouse d name = Inr d' \<Longrightarrow> wf_db d'"
  unfolding wf_db_def insert_warehouse_def
  by (auto intro: wf_levels_same wf_orders_same)

lemma wf_db_insert_product:
  "wf_db d \<Longrightarrow> insert_product d sku name supp = Inr d' \<Longrightarrow> wf_db d'"
  unfolding wf_db_def insert_product_def
  by (auto intro: wf_levels_same wf_orders_same split: if_splits)

lemma wf_db_delete_supplier:
  "wf_db d \<Longrightarrow> delete_supplier d i = Inr d' \<Longrightarrow> wf_db d'"
  unfolding wf_db_def delete_supplier_def
  by (auto intro: wf_levels_same wf_orders_same split: if_splits)

lemma wf_db_delete_warehouse:
  "wf_db d \<Longrightarrow> delete_warehouse d i = Inr d' \<Longrightarrow> wf_db d'"
  unfolding wf_db_def delete_warehouse_def
  by (auto intro: wf_levels_filter wf_orders_same split: if_splits)

lemma wf_db_delete_product:
  "wf_db d \<Longrightarrow> delete_product d i = Inr d' \<Longrightarrow> wf_db d'"
  unfolding wf_db_def delete_product_def
  by (auto intro: wf_levels_filter wf_orders_same split: if_splits)

lemma wf_db_delete_purchase_order:
  "wf_db d \<Longrightarrow> delete_purchase_order d i = Inr d' \<Longrightarrow> wf_db d'"
  unfolding wf_db_def delete_purchase_order_def
  by (auto intro: wf_levels_same wf_orders_filter)

lemma wf_db_delete_items_of_order:
  "wf_db d \<Longrightarrow> delete_items_of_order d i = Inr d' \<Longrightarrow> wf_db d'"
  unfolding wf_db_def delete_items_of_order_def
  by (auto intro: wf_levels_same wf_orders_filter [where P = "\<lambda>r. True"])

lemma item_row_sel [simp]:
  "it_id (item_row i now oid p q received price) = i"
  "it_purchase_order_id (item_row i now oid p q received price) = oid"
  "it_product_id (item_row i now oid p q received price) = p"
  "it_quantity_ordered (item_row i now oid p q received price) = q"
  "it_quantity_received (item_row i now oid p q received price) = received"
  "it_unit_price (item_row i now oid p q received price) = price"
  "it_total_price (item_row i now oid p q received price) = q * price"
  "it_created_at (item_row i now oid p q received price) = now"
  by (simp_all add: item_row_def)

lemma total_ok_item_row [simp]: "total_ok (item_row i now oid p q received price)"
  by (simp add: total_ok_def)

lemma to_int4_Inr: "to_int4 x = Inr q \<Longrightarrow> of_int q = x \<and> in_int4 q"
  by (auto simp: to_int4_def split: if_splits)

lemma to_decimal_10_2_Inr:
  "to_decimal_10_2 x = Inr c \<Longrightarrow> c = round_half_away (x * 100) \<and> in_decimal_10_2 c"
  by (auto simp: to_decimal_10_2_def Let_def split: if_splits)

lemma item_numbers_Inr:
  assumes "item_numbers q received price = Inr (q', received', price')"
  shows "of_int q' = q" "received' = received" "price' = round_half_away (price * 100)"
    "in_decimal_10_2 (q' * price')"
  using assms
  by (auto simp: item_numbers_def split: sum.splits if_splits dest: to_int4_Inr to_decimal_10_2_Inr)

lemma build_item_Inr:
  assumes "build_item d i ins = Inr row"
  shows "it_id row = i"
    "it_purchase_order_id row = iti_purchase_order_id ins"
    "iti_product_id ins = Some (it_product_id row)"
    "of_int (it_quantity_ordered row) = (case iti_quantity_ordered ins of None \<Rightarrow> 0 | Some v \<Rightarrow> v)"
    "it_quantity_received row = (case iti_quantity_received ins of None \<Rightarrow> 0 | Some v \<Rightarrow> v)"
    "it_unit_price row = round_half_away ((case iti_unit_price ins of None \<Rightarrow> 0 | Some v \<Rightarrow> v) * 100)"
    "total_ok row"
    "purchase_order_exists d (iti_purchase_order_id ins)"
    "iti_total_price ins = None"
proof -
  from assms obtain p q received price where
    p: "iti_product_id ins = Some p" and t: "iti_total_price ins = None"
    and n: "item_numbers (case iti_quantity_ordered ins of None \<Rightarrow> 0 | Some v \<Rightarrow> v)
                             (case iti_quantity_received ins of None \<Rightarrow> 0 | Some v \<Rightarrow> v)
                             (case iti_unit_price ins of None \<Rightarrow> 0 | Some v \<Rightarrow> v) = Inr (q, received, price)"
    and e: "purchase_order_exists d (iti_purchase_order_id ins)"
    and row: "row = item_row i (clock d) (iti_purchase_order_id ins) p q received price"
    unfolding build_item_def
    by (simp split: if_splits option.splits sum.splits prod.splits)
  note m = item_numbers_Inr [OF n]
  show "it_id row = i" "it_purchase_order_id row = iti_purchase_order_id ins"
    "iti_product_id ins = Some (it_product_id row)" "total_ok row"
    "purchase_order_exists d (iti_purchase_order_id ins)" "iti_total_price ins = None"
    by (simp_all add: row p t e)
  show "of_int (it_quantity_ordered row) = (case iti_quantity_ordered ins of None \<Rightarrow> 0 | Some v \<Rightarrow> v)"
    using m(1) by (simp add: row)
  show "it_quantity_received row = (case iti_quantity_received ins of None \<Rightarrow> 0 | Some v \<Rightarrow> v)"
    using m(2) by (simp add: row)
  show "it_unit_price row = round_half_away ((case iti_unit_price ins of None \<Rightarrow> 0 | Some v \<Rightarrow> v) * 100)"
    using m(3) by (simp add: row)
qed

lemma build_items_Inr:
  assumes "build_items d i payload = Inr rows"
  shows "length rows = length payload"
    and "map it_id rows = [i ..< i + length payload]"
    and "list_all total_ok rows"
    and "list_all (\<lambda>r. purchase_order_exists d (it_purchase_order_id r)) rows"
  using assms
proof (induction payload arbitrary: i rows)
  case Nil
  { case 1 then show ?case by simp
  next case 2 then show ?case by simp
  next case 3 then show ?case by simp
  next case 4 then show ?case by simp }
next
  case (Cons ins rest)
  { case 1
    then obtain row rows' where r: "build_item d i ins = Inr row"
        "build_items d (Suc i) rest = Inr rows'" "rows = row # rows'"
      by (auto split: sum.splits)
    with Cons.IH(1) show ?case by simp
  next
    case 2
    then obtain row rows' where r: "build_item d i ins = Inr row"
        "build_items d (Suc i) rest = Inr rows'" "rows = row # rows'"
      by (auto split: sum.splits)
    with Cons.IH(2) [OF r(2)] build_item_Inr(1) [OF r(1)] show ?case
      by (simp add: upt_rec)
  next
    case 3
    then obtain row rows' where r: "build_item d i ins = Inr row"
        "build_items d (Suc i) rest = Inr rows'" "rows = row # rows'"
      by (auto split: sum.splits)
    with Cons.IH(3) [OF r(2)] build_item_Inr(7) [OF r(1)] show ?case by simp
  next
    case 4
    then obtain row rows' where r: "build_item d i ins = Inr row"
        "build_items d (Suc i) rest = Inr rows'" "rows = row # rows'"
      by (auto split: sum.splits)
    with Cons.IH(4) [OF r(2)] build_item_Inr(2,8) [OF r(1)] show ?case by simp }
qed

lemma purchase_order_exists_less:
  "wf_orders d \<Longrightarrow> purchase_order_exists d i \<Longrightarrow> i < next_uuid d"
  by (auto simp: wf_orders_def purchase_order_exists_def list_all_iff list_ex_iff)

lemma insert_purchase_order_items_Inr:
  assumes "insert_purchase_order_items d payload = Inr d'"
  obtains rows where "build_items d (next_uuid d) payload = Inr rows"
    "d' = d\<lparr>purchase_order_items := purchase_order_items d @ rows,
            next_uuid := next_uuid d + length rows\<rparr>"
  using assms by (auto simp: insert_purchase_order_items_def split: sum.splits)

lemma wf_db_insert_purchase_order_items:
  assumes "wf_db d" "insert_purchase_order_items d payload = Inr d'"
  shows "wf_db d'"
proof -
  from assms(2) obtain rows where rows: "build_items d (next_uuid d) payload = Inr rows"
    and d': "d' = d\<lparr>purchase_order_items := purchase_order_items d @ rows,
            next_uuid := next_uuid d + length rows\<rparr>"
    by (rule insert_purchase_order_items_Inr)
  note b = build_items_Inr [OF rows]
  have wo: "wf_orders d" using assms(1) by (simp add: wf_db_def)
  have ids: "\<forall>r \<in> set rows. it_id r < next_uuid d + length rows"
  proof
    fix r assume "r \<in> set rows"
    then have "it_id r \<in> set (map it_id rows)" by simp
    then show "it_id r < next_uuid d + length rows" unfolding b(2) by (simp add: b(1))
  qed
  have oids: "\<forall>r \<in> set rows. it_purchase_order_id r < next_uuid d + length rows"
    using b(4) purchase_order_exists_less [OF wo] by (fastforce simp: list_all_iff)
  have "wf_orders d'"
    using wo ids oids b(3) unfolding d' wf_orders_def by (auto simp: list_all_iff)
  moreover have "wf_levels d'"
    by (rule wf_levels_same [of d]) (use assms(1) in \<open>simp_all add: wf_db_def d'\<close>)
  ultimately show ?thesis by (simp add: wf_db_def)
qed

lemma update_item_row_Inr:
  assumes "update_item_row upd r = Inr r'"
  shows "it_id r' = it_id r" "it_purchase_order_id r' = it_purchase_order_id r"
    "it_product_id r' = it_product_id r" "total_ok r'"
  using assms by (auto simp: update_item_row_def split: sum.splits prod.splits)

lemma update_item_rows_Inr:
  assumes "update_item_rows i upd rows = Inr rows'"
  shows "map it_id rows' = map it_id rows"
    and "map it_purchase_order_id rows' = map it_purchase_order_id rows"
    and "list_all total_ok rows \<Longrightarrow> list_all total_ok rows'"
  using assms
proof (induction rows arbitrary: rows')
  case Nil
  { case 1 then show ?case by simp
  next case 2 then show ?case by simp
  next case 3 then show ?case by simp }
next
  case (Cons r rest)
  { case 1
    then show ?case using Cons.IH(1)
      by (auto split: sum.splits if_splits dest: update_item_row_Inr)
  next
    case 2
    then show ?case using Cons.IH(2)
      by (auto split: sum.splits if_splits dest: update_item_row_Inr)
  next
    case 3
    then show ?case using Cons.IH(3)
      by (auto split: sum.splits if_splits dest: update_item_row_Inr) }
qed

lemma list_all_map_eq:
  assumes "map f xs = map f ys" "list_all (\<lambda>r. P (f r)) ys"
  shows "list_all (\<lambda>r. P (f r)) xs"
proof -
  have "list_all P (map f xs)" using assms by (simp add: list_all_iff)
  then show ?thesis by (simp add: list_all_iff)
qed

lemma wf_db_update_purchase_order_item:
  assumes "wf_db d" "update_purchase_order_item d i upd = Inr d'"
  shows "wf_db d'"
proof -
  from assms(2) obtain rows where rows: "update_item_rows i upd (purchase_order_items d) = Inr rows"
    and d': "d' = d\<lparr>purchase_order_items := rows\<rparr>"
    by (auto simp: update_purchase_order_item_def split: if_splits sum.splits)
  note u = update_item_rows_Inr [OF rows]
  have wo: "wf_orders d" using assms(1) by (simp add: wf_db_def)
  have "list_all (\<lambda>r. it_id r < next_uuid d) rows"
    by (rule list_all_map_eq [OF u(1)]) (use wo in \<open>simp add: wf_orders_def list_all_iff\<close>)
  moreover have "list_all (\<lambda>r. it_purchase_order_id r < next_uuid d) rows"
    by (rule list_all_map_eq [OF u(2)]) (use wo in \<open>simp add: wf_orders_def list_all_iff\<close>)
  moreover have "list_all total_ok rows" using u(3) wo by (simp add: wf_orders_def)
  ultimately have "wf_orders d'" using wo unfolding d' wf_orders_def by (simp add: list_all_iff)
  moreover have "wf_levels d'"
    by (rule wf_levels_same [of d]) (use assms(1) in \<open>simp_all add: wf_db_def d'\<close>)
  ultimately show ?thesis by (simp add: wf_db_def)
qed

lemma insert_purchase_order_Inr:
  assumes "insert_purchase_order d ins = Inr (d', row)"
  shows "d' = d\<lparr>purchase_orders := purchase_orders d @ [row], next_uuid := Suc (next_uuid d)\<rparr>"
    and "po_id row = next_uuid d"
    and "po_total_amount row = round_half_away (poi_total_amount ins * 100)"
proof -
  from assms obtain s w c where
    s: "poi_supplier_id ins = Some s" and w: "poi_warehouse_id ins = Some w"
    and c: "to_decimal_10_2 (poi_total_amount ins) = Inr c"
    by (cases "poi_supplier_id ins"; cases "poi_warehouse_id ins";
        cases "to_decimal_10_2 (poi_total_amount ins)")
       (simp_all add: insert_purchase_order_def)
  from assms have r0: "\<lparr>po_id = next_uuid d, po_number = poi_po_number ins,
                              po_supplier_id = s, po_warehouse_id = w,
                              po_order_date = poi_order_date ins,
                              po_expected_date = poi_expected_date ins,
                              po_status = poi_status ins, po_total_amount = c,
                              po_notes = poi_notes ins, po_created_by = None,
                              po_created_at = clock d, po_updated_at = clock d\<rparr> = row"
    by (simp add: insert_purchase_order_def s w c Let_def split: if_splits)
  note r = r0 [symmetric]
  from assms have "d\<lparr>purchase_orders := purchase_orders d @ [row], next_uuid := Suc (next_uuid d)\<rparr> = d'"
    unfolding r by (simp add: insert_purchase_order_def s w c Let_def split: if_splits)
  then have d': "d' = d\<lparr>purchase_orders := purchase_orders d @ [row], next_uuid := Suc (next_uuid d)\<rparr>"
    by (rule sym)
  show "d' = d\<lparr>purchase_orders := purchase_orders d @ [row], next_uuid := Suc (next_uuid d)\<rparr>"
    by (rule d')
  show "po_id row = next_uuid d" by (simp add: r)
  show "po_total_amount row = round_half_away (poi_total_amount ins * 100)"
    using to_decimal_10_2_Inr [OF c] by (simp add: r)
qed

lemma wf_db_insert_purchase_order:
  assumes "wf_db d" "insert_purchase_order d ins = Inr (d', row)"
  shows "wf_db d'"
proof -
  note r = insert_purchase_order_Inr [OF assms(2)]
  have "wf_orders d'"
    using assms(1) r(2) unfolding r(1) wf_db_def wf_orders_def by (auto simp: list_all_iff)
  moreover have "wf_levels d'"
    by (rule wf_levels_same [of d]) (use assms(1) in \<open>simp_all add: wf_db_def r(1)\<close>)
  ultimately show ?thesis by (simp add: wf_db_def)
qed

lemma update_purchase_order_Inr:
  assumes "update_purchase_order d i upd = Inr d'"
  shows "purchase_order_items d' = purchase_order_items d" "next_uuid d' = next_uuid d"
    "stock_levels d' = stock_levels d" "clock d' = clock d" "products d' = products d"
    "map po_id (purchase_orders d') = map po_id (purchase_orders d)"
    "list_all (\<lambda>r. po_id r = i \<longrightarrow>
        po_total_amount r = round_half_away (pou_total_amount upd * 100)) (purchase_orders d')"
proof -
  from assms obtain s w c where
    s: "pou_supplier_id upd = Some s" and w: "pou_warehouse_id upd = Some w"
    and c: "to_decimal_10_2 (pou_total_amount upd) = Inr c"
    by (cases "pou_supplier_id upd"; cases "pou_warehouse_id upd";
        cases "to_decimal_10_2 (pou_total_amount upd)")
       (simp_all add: update_purchase_order_def)
  define g :: "purchase_order \<Rightarrow> purchase_order" where "g = (\<lambda>r. if po_id r = i
                               then r\<lparr>po_supplier_id := s, po_warehouse_id := w,
                                      po_order_date := pou_order_date upd,
                                      po_expected_date := pou_expected_date upd,
                                      po_status := pou_status upd, po_total_amount := c,
                                      po_notes := pou_notes upd, po_updated_at := clock d\<rparr>
                               else r)"
  from assms have "d\<lparr>purchase_orders := map g (purchase_orders d)\<rparr> = d'"
    unfolding g_def by (simp add: update_purchase_order_def s w c split: if_splits)
  then have d': "d' = d\<lparr>purchase_orders := map g (purchase_orders d)\<rparr>" by (rule sym)
  have g_id: "po_id (g r) = po_id r" for r by (simp add: g_def)
  have g_total: "po_id r = i \<Longrightarrow> po_total_amount (g r) = c" for r by (simp add: g_def)
  show "purchase_order_items d' = purchase_order_items d" "next_uuid d' = next_uuid d"
    "stock_levels d' = stock_levels d" "clock d' = clock d" "products d' = products d"
    by (simp_all add: d')
  show "map po_id (purchase_orders d') = map po_id (purchase_orders d)"
    by (simp add: d' g_id)
  show "list_all (\<lambda>r. po_id r = i \<longrightarrow>
        po_total_amount r = round_half_away (pou_total_amount upd * 100)) (purchase_orders d')"
    using to_decimal_10_2_Inr [OF c] by (simp add: d' list_all_iff g_id g_total)
qed

lemma wf_db_update_purchase_order:
  assumes "wf_db d" "update_purchase_order d i upd = Inr d'"
  shows "wf_db d'"
proof -
  note r = update_purchase_order_Inr [OF assms(2)]
  have "list_all (\<lambda>r. po_id r < next_uuid d) (purchase_orders d')"
    by (rule list_all_map_eq [OF r(6)]) (use assms(1) in \<open>simp add: wf_db_def wf_orders_def\<close>)
  then have "wf_orders d'"
    using assms(1) unfolding wf_db_def wf_orders_def r(1,2) by simp
  moreover have "wf_levels d'"
    by (rule wf_levels_same [of d]) (use assms(1) in \<open>simp_all add: wf_db_def r\<close>)
  ultimately show ?thesis by (simp add: wf_db_def)
qed

subsection \<open>The handlers and the operations\<close>

lemma send_Resolved: "send f r = Resolved x \<Longrightarrow> x = r \<or> x = Inl RequestFailed"
  by (cases f) (simp_all add: send_def)

lemma keep_send:
  assumes "send f r = Resolved x" "P d" "\<And>d'. r = Inr d' \<Longrightarrow> P d'"
  shows "P (keep d x)"
  using send_Resolved [OF assms(1)] assms(2,3) by (cases x) (auto simp: keep_def)

lemma handleSubmit_preserves:
  assumes d: "P d"
    and movement: "\<And>d0 d'. P d0 \<Longrightarrow> insert_stock_movement d0 (movementData f) = Inr d' \<Longrightarrow> P d'"
    and update: "\<And>d0 i u d'. P d0 \<Longrightarrow> update_stock_level d0 i u = Inr d' \<Longrightarrow> P d'"
    and create: "\<And>d0 ins d'. P d0 \<Longrightarrow> insert_stock_level d0 ins = Inr d' \<Longrightarrow> P d'"
  shows "P (handleSubmit faults today d f)"
proof (cases "send (faults 0) (insert_stock_movement d (movementData f))")
  case Rejected
  then show ?thesis using d by (simp add: handleSubmit_def)
next
  case (Resolved inserted)
  define d1 where "d1 = keep d inserted"
  have d1: "P d1" unfolding d1_def by (rule keep_send [where P = P, OF Resolved d]) (rule movement [OF d])
  show ?thesis
  proof (cases "send (faults 1) (select_stock_level d1 (fd_product_id f) (fd_warehouse_id f))")
    case Rejected
    then show ?thesis using d1 Resolved by (simp add: handleSubmit_def d1_def)
  next
    case sel: (Resolved selected)
    show ?thesis
    proof (cases "case selected of Inl e \<Rightarrow> None | Inr row \<Rightarrow> row")
      case None
      show ?thesis
      proof (cases "send (faults 2) (insert_stock_level d1 (level_insert f))")
        case Rejected
        then show ?thesis using d1 Resolved sel None by (simp add: handleSubmit_def d1_def)
      next
        case cr: (Resolved created)
        have "P (keep d1 created)" by (rule keep_send [where P = P, OF cr d1]) (rule create [OF d1])
        then show ?thesis using Resolved sel None cr by (simp add: handleSubmit_def d1_def)
      qed
    next
      case (Some cs)
      show ?thesis
      proof (cases "send (faults 2) (update_stock_level d1 (sl_id cs) (level_update cs f today))")
        case Rejected
        then show ?thesis using d1 Resolved sel Some by (simp add: handleSubmit_def d1_def)
      next
        case up: (Resolved updated)
        have "P (keep d1 updated)" by (rule keep_send [where P = P, OF up d1]) (rule update [OF d1])
        then show ?thesis using Resolved sel Some up by (simp add: handleSubmit_def d1_def)
      qed
    qed
  qed
qed

lemma wf_db_handleSubmit: "wf_db d \<Longrightarrow> wf_db (handleSubmit faults today d f)"
  by (rule handleSubmit_preserves)
     (auto intro: wf_db_insert_stock_movement wf_db_update_stock_level wf_db_insert_stock_level)

lemma save_items_preserves:
  assumes "P d"
    and "\<And>d'. insert_purchase_order_items d (map (item_payload oid) orderItems) = Inr d' \<Longrightarrow> P d'"
  shows "P (snd (save_items flt d oid orderItems))"
proof (cases "send flt (insert_purchase_order_items d (map (item_payload oid) orderItems))")
  case Rejected
  then show ?thesis using assms(1) by (simp add: save_items_def)
next
  case (Resolved x)
  show ?thesis
  proof (cases x)
    case (Inl e)
    then show ?thesis using assms(1) Resolved by (simp add: save_items_def)
  next
    case (Inr d')
    with send_Resolved [OF Resolved]
    have "insert_purchase_order_items d (map (item_payload oid) orderItems) = Inr d'" by auto
    then have "P d'" by (rule assms(2))
    then show ?thesis using assms(1) Resolved Inr by (simp add: save_items_def)
  qed
qed

lemma handleSave_preserves:
  assumes d: "P d"
    and ins: "\<And>d0 p d' row. P d0 \<Longrightarrow> insert_purchase_order d0 p = Inr (d', row) \<Longrightarrow> P d'"
    and upd: "\<And>d0 i u d'. P d0 \<Longrightarrow> update_purchase_order d0 i u = Inr d' \<Longrightarrow> P d'"
    and del: "\<And>d0 i d'. P d0 \<Longrightarrow> delete_items_of_order d0 i = Inr d' \<Longrightarrow> P d'"
    and items: "\<And>d0 p d'. P d0 \<Longrightarrow> insert_purchase_order_items d0 p = Inr d' \<Longrightarrow> P d'"
  shows "P (snd (handleSave faults d mode selectedOrder f orderItems))"
proof (cases "mode = Create")
  case True
  show ?thesis
  proof (cases "send (faults 0) (insert_purchase_order d (order_insert f (calculateTotal orderItems)))")
    case Rejected
    then show ?thesis using d True by (simp add: handleSave_def)
  next
    case (Resolved x)
    show ?thesis
    proof (cases x)
      case (Inl e)
      then show ?thesis using d True Resolved by (simp add: handleSave_def)
    next
      case (Inr pr)
      obtain d1 row where pr: "pr = (d1, row)" by (cases pr)
      have "insert_purchase_order d (order_insert f (calculateTotal orderItems)) = Inr (d1, row)"
        using send_Resolved [OF Resolved] Inr pr by auto
      then have d1: "P d1" by (rule ins [OF d])
      have "P (snd (save_items (faults 1) d1 (po_id row) orderItems))"
        by (rule save_items_preserves [where P = P, OF d1]) (rule items [OF d1])
      then show ?thesis using True Resolved Inr pr by (simp add: handleSave_def)
    qed
  qed
next
  case False
  show ?thesis
  proof (cases "\<exists>selected. mode = Edit \<and> selectedOrder = Some selected")
    case no: False
    then have "handleSave faults d mode selectedOrder f orderItems = (Saved, d)"
      using False by (cases mode; cases selectedOrder) (simp_all add: handleSave_def)
    then show ?thesis using d by simp
  next
    case True
    then obtain selected where e: "mode = Edit" "selectedOrder = Some selected" by blast
    show ?thesis
    proof (cases "send (faults 0)
         (update_purchase_order d selected (order_update f (calculateTotal orderItems)))")
      case Rejected
      then show ?thesis using d e by (simp add: handleSave_def)
    next
      case (Resolved x)
      show ?thesis
      proof (cases x)
        case (Inl err)
        then show ?thesis using d e Resolved by (simp add: handleSave_def)
      next
        case (Inr d1)
        have "update_purchase_order d selected (order_update f (calculateTotal orderItems)) = Inr d1"
          using send_Resolved [OF Resolved] Inr by auto
        then have d1: "P d1" by (rule upd [OF d])
        show ?thesis
        proof (cases "send (faults 1) (delete_items_of_order d1 selected)")
          case Rejected
          then show ?thesis using d1 e Resolved Inr by (simp add: handleSave_def)
        next
          case dl: (Resolved deleted)
          have d2: "P (keep d1 deleted)"
            by (rule keep_send [where P = P, OF dl d1]) (rule del [OF d1])
          have "P (snd (save_items (faults 2) (keep d1 deleted) selected orderItems))"
            by (rule save_items_preserves [where P = P, OF d2]) (rule items [OF d2])
          then show ?thesis using e Resolved Inr dl by (simp add: handleSave_def)
        qed
      qed
    qed
  qed
qed

lemma wf_db_handleSave:
  "wf_db d \<Longrightarrow> wf_db (snd (handleSave faults d mode selectedOrder f orderItems))"
  by (rule handleSave_preserves)
     (auto intro: wf_db_insert_purchase_order wf_db_update_purchase_order
        wf_db_delete_items_of_order wf_db_insert_purchase_order_items)

lemma wf_keep: "wf_db d \<Longrightarrow> (\<And>d'. r = Inr d' \<Longrightarrow> wf_db d') \<Longrightarrow> wf_db (keep d r)"
  by (cases r) (simp_all add: keep_def)

lemma wf_db_tick: "wf_db d \<Longrightarrow> wf_db (d\<lparr>clock := Suc (clock d)\<rparr>)"
  by (simp add: wf_db_def wf_levels_def wf_orders_def)

lemma wf_db_exec: "wf_db d \<Longrightarrow> wf_db (exec d x)"
proof (cases x)
  case (SubmitMovement faults today f)
  assume "wf_db d" then show ?thesis unfolding SubmitMovement by (simp add: wf_db_handleSubmit)
next
  case (SaveOrder faults mode selectedOrder f orderItems)
  assume "wf_db d" then show ?thesis unfolding SaveOrder by (simp add: wf_db_handleSave)
next
  case Tick
  assume "wf_db d" then show ?thesis unfolding Tick by (simp add: wf_db_tick)
qed (auto intro!: wf_keep
      intro: wf_db_insert_supplier wf_db_insert_warehouse wf_db_insert_product
        wf_db_delete_supplier wf_db_delete_warehouse wf_db_delete_product
        wf_db_delete_purchase_order wf_db_insert_stock_level wf_db_update_stock_level
        wf_db_delete_stock_level wf_db_insert_purchase_order_items
        wf_db_update_purchase_order_item)

lemma wf_db_foldl: "wf_db d \<Longrightarrow> wf_db (foldl exec d xs)"
  by (induction xs arbitrary: d) (simp_all add: wf_db_exec)

lemma wf_db_empty: "wf_db empty_db"
  by (simp add: wf_db_def wf_levels_def wf_orders_def empty_db_def)

lemma wf_db_run: "wf_db (run xs)"
  unfolding run_def by (rule wf_db_foldl) (rule wf_db_empty)

subsection \<open>Referential integrity\<close>

lemma exists_iff:
  "supplier_exists d i \<longleftrightarrow> i \<in> s_id ` set (suppliers d)"
  "warehouse_exists d i \<longleftrightarrow> i \<in> w_id ` set (warehouses d)"
  "product_exists d i \<longleftrightarrow> i \<in> p_id ` set (products d)"
  "purchase_order_exists d i \<longleftrightarrow> i \<in> po_id ` set (purchase_orders d)"
  by (auto simp: supplier_exists_def warehouse_exists_def product_exists_def
      purchase_order_exists_def list_ex_iff)

lemma wf_refs_iff:
  "wf_refs d \<longleftrightarrow>
     (\<forall>r \<in> set (stock_levels d). sl_product_id r \<in> p_id ` set (products d) \<and>
        sl_warehouse_id r \<in> w_id ` set (warehouses d)) \<and>
     (\<forall>r \<in> set (stock_movements d). sm_product_id r \<in> p_id ` set (products d) \<and>
        sm_warehouse_id r \<in> w_id ` set (warehouses d)) \<and>
     (\<forall>r \<in> set (purchase_orders d). po_supplier_id r \<in> s_id ` set (suppliers d) \<and>
        po_warehouse_id r \<in> w_id ` set (warehouses d)) \<and>
     (\<forall>r \<in> set (purchase_order_items d). it_purchase_order_id r \<in> po_id ` set (purchase_orders d) \<and>
        it_product_id r \<in> p_id ` set (products d)) \<and>
     (\<forall>r \<in> set (products d). \<forall>s. p_supplier_id r = Some s \<longrightarrow> s \<in> s_id ` set (suppliers d))"
  by (auto simp: wf_refs_def list_all_iff stock_level_refs_ok_def exists_iff split: option.splits)

lemma wf_refs_insert_supplier:
  "wf_refs d \<Longrightarrow> insert_supplier d name = Inr d' \<Longrightarrow> wf_refs d'"
  by (auto simp: wf_refs_iff insert_supplier_def)

lemma wf_refs_insert_warehouse:
  "wf_refs d \<Longrightarrow> insert_warehouse d name = Inr d' \<Longrightarrow> wf_refs d'"
  by (auto simp: wf_refs_iff insert_warehouse_def)

lemma wf_refs_insert_product:
  "wf_refs d \<Longrightarrow> insert_product d sku name supp = Inr d' \<Longrightarrow> wf_refs d'"
  by (auto simp: wf_refs_iff insert_product_def exists_iff split: if_splits option.splits)

lemma wf_refsD:
  assumes "wf_refs d"
  shows "\<And>r. r \<in> set (stock_levels d) \<Longrightarrow> sl_product_id r \<in> p_id ` set (products d) \<and>
        sl_warehouse_id r \<in> w_id ` set (warehouses d)"
    and "\<And>r. r \<in> set (stock_movements d) \<Longrightarrow> sm_product_id r \<in> p_id ` set (products d) \<and>
        sm_warehouse_id r \<in> w_id ` set (warehouses d)"
    and "\<And>r. r \<in> set (purchase_orders d) \<Longrightarrow> po_supplier_id r \<in> s_id ` set (suppliers d) \<and>
        po_warehouse_id r \<in> w_id ` set (warehouses d)"
    and "\<And>r. r \<in> set (purchase_order_items d) \<Longrightarrow>
        it_purchase_order_id r \<in> po_id ` set (purchase_orders d) \<and>
        it_product_id r \<in> p_id ` set (products d)"
    and "\<And>r s. r \<in> set (products d) \<Longrightarrow> p_supplier_id r = Some s \<Longrightarrow>
        s \<in> s_id ` set (suppliers d)"
  using assms unfolding wf_refs_iff by blast+

lemma wf_refsI:
  assumes "\<And>r. r \<in> set (stock_levels d) \<Longrightarrow> sl_product_id r \<in> p_id ` set (products d) \<and>
        sl_warehouse_id r \<in> w_id ` set (warehouses d)"
    and "\<And>r. r \<in> set (stock_movements d) \<Longrightarrow> sm_product_id r \<in> p_id ` set (products d) \<and>
        sm_warehouse_id r \<in> w_id ` set (warehouses d)"
    and "\<And>r. r \<in> set (purchase_orders d) \<Longrightarrow> po_supplier_id r \<in> s_id ` set (suppliers d) \<and>
        po_warehouse_id r \<in> w_id ` set (warehouses d)"
    and "\<And>r. r \<in> set (purchase_order_items d) \<Longrightarrow>
        it_purchase_order_id r \<in> po_id ` set (purchase_orders d) \<and>
        it_product_id r \<in> p_id ` set (products d)"
    and "\<And>r s. r \<in> set (products d) \<Longrightarrow> p_supplier_id r = Some s \<Longrightarrow>
        s \<in> s_id ` set (suppliers d)"
  shows "wf_refs d"
  unfolding wf_refs_iff using assms by blast

lemma image_filterI: "x \<in> f ` set xs \<Longrightarrow> (\<And>r. r \<in> set xs \<Longrightarrow> f r = x \<Longrightarrow> P r) \<Longrightarrow> x \<in> f ` set (filter P xs)"
  by auto

lemma wf_refs_delete_warehouse:
  assumes "wf_refs d" "delete_warehouse d i = Inr d'"
  shows "wf_refs d'"
proof -
  from assms(2) have free: "\<And>r. r \<in> set (purchase_orders d) \<Longrightarrow> po_warehouse_id r \<noteq> i"
    by (auto simp: delete_warehouse_def list_ex_iff split: if_splits)
  from assms(2) have d': "d' = d\<lparr>warehouses := filter (\<lambda>r. w_id r \<noteq> i) (warehouses d),
                 stock_levels := filter (\<lambda>r. sl_warehouse_id r \<noteq> i) (stock_levels d),
                 stock_movements := filter (\<lambda>r. sm_warehouse_id r \<noteq> i) (stock_movements d)\<rparr>"
    by (simp add: delete_warehouse_def split: if_splits)
  note w = wf_refsD [OF assms(1)]
  have keepw: "x \<in> w_id ` set (warehouses d')" if "x \<in> w_id ` set (warehouses d)" "x \<noteq> i" for x
    unfolding d' using that by auto
  show ?thesis
  proof (rule wf_refsI)
    fix r assume "r \<in> set (stock_levels d')"
    then have "r \<in> set (stock_levels d)" "sl_warehouse_id r \<noteq> i" by (simp_all add: d')
    then show "sl_product_id r \<in> p_id ` set (products d') \<and>
        sl_warehouse_id r \<in> w_id ` set (warehouses d')"
      using w(1) [of r] keepw by (simp add: d')
  next
    fix r assume "r \<in> set (stock_movements d')"
    then have "r \<in> set (stock_movements d)" "sm_warehouse_id r \<noteq> i" by (simp_all add: d')
    then show "sm_product_id r \<in> p_id ` set (products d') \<and>
        sm_warehouse_id r \<in> w_id ` set (warehouses d')"
      using w(2) [of r] keepw by (simp add: d')
  next
    fix r assume "r \<in> set (purchase_orders d')"
    then have r: "r \<in> set (purchase_orders d)" by (simp add: d')
    then show "po_supplier_id r \<in> s_id ` set (suppliers d') \<and>
        po_warehouse_id r \<in> w_id ` set (warehouses d')"
      using w(3) [of r] free [of r] keepw by (simp add: d')
  next
    fix r assume "r \<in> set (purchase_order_items d')"
    then show "it_purchase_order_id r \<in> po_id ` set (purchase_orders d') \<and>
        it_product_id r \<in> p_id ` set (products d')"
      using w(4) [of r] by (simp add: d')
  next
    fix r s assume "r \<in> set (products d')" "p_supplier_id r = Some s"
    then show "s \<in> s_id ` set (suppliers d')" using w(5) [of r s] by (simp add: d')
  qed
qed

lemma wf_refs_delete_product:
  assumes "wf_refs d" "delete_product d i = Inr d'"
  shows "wf_refs d'"
proof -
  from assms(2) have free: "\<And>r. r \<in> set (purchase_order_items d) \<Longrightarrow> it_product_id r \<noteq> i"
    by (auto simp: delete_product_def list_ex_iff split: if_splits)
  from assms(2) have d': "d' = d\<lparr>products := filter (\<lambda>r. p_id r \<noteq> i) (products d),
                 stock_levels := filter (\<lambda>r. sl_product_id r \<noteq> i) (stock_levels d),
                 stock_movements := filter (\<lambda>r. sm_product_id r \<noteq> i) (stock_movements d)\<rparr>"
    by (simp add: delete_product_def split: if_splits)
  note w = wf_refsD [OF assms(1)]
  have keepp: "x \<in> p_id ` set (products d')" if "x \<in> p_id ` set (products d)" "x \<noteq> i" for x
    unfolding d' using that by auto
  show ?thesis
  proof (rule wf_refsI)
    fix r assume "r \<in> set (stock_levels d')"
    then have "r \<in> set (stock_levels d)" "sl_product_id r \<noteq> i" by (simp_all add: d')
    then show "sl_product_id r \<in> p_id ` set (products d') \<and>
        sl_warehouse_id r \<in> w_id ` set (warehouses d')"
      using w(1) [of r] keepp by (simp add: d')
  next
    fix r assume "r \<in> set (stock_movements d')"
    then have "r \<in> set (stock_movements d)" "sm_product_id r \<noteq> i" by (simp_all add: d')
    then show "sm_product_id r \<in> p_id ` set (products d') \<and>
        sm_warehouse_id r \<in> w_id ` set (warehouses d')"
      using w(2) [of r] keepp by (simp add: d')
  next
    fix r assume "r \<in> set (purchase_orders d')"
    then show "po_supplier_id r \<in> s_id ` set (suppliers d') \<and>
        po_warehouse_id r \<in> w_id ` set (warehouses d')"
      using w(3) [of r] by (simp add: d')
  next
    fix r assume "r \<in> set (purchase_order_items d')"
    then have r: "r \<in> set (purchase_order_items d)" by (simp add: d')
    then show "it_purchase_order_id r \<in> po_id ` set (purchase_orders d') \<and>
        it_product_id r \<in> p_id ` set (products d')"
      using w(4) [of r] free [of r] keepp by (simp add: d')
  next
    fix r s assume "r \<in> set (products d')" "p_supplier_id r = Some s"
    then show "s \<in> s_id ` set (suppliers d')" using w(5) [of r s] by (simp add: d')
  qed
qed

lemma wf_refs_delete_supplier:
  assumes "wf_refs d" "delete_supplier d i = Inr d'"
  shows "wf_refs d'"
proof -
  let ?g = "\<lambda>r. if p_supplier_id r = Some i then r\<lparr>p_supplier_id := None\<rparr> else r"
  from assms(2) have free: "\<And>r. r \<in> set (purchase_orders d) \<Longrightarrow> po_supplier_id r \<noteq> i"
    by (auto simp: delete_supplier_def list_ex_iff split: if_splits)
  from assms(2) have d': "d' = d\<lparr>suppliers := filter (\<lambda>r. s_id r \<noteq> i) (suppliers d),
                 products := map ?g (products d)\<rparr>"
    by (simp add: delete_supplier_def split: if_splits)
  note w = wf_refsD [OF assms(1)]
  have g_id: "p_id (?g r) = p_id r" for r by simp
  have "map p_id (map ?g (products d)) = map p_id (products d)"
    by (simp add: g_id cong: map_cong)
  then have "set (map p_id (products d')) = set (map p_id (products d))" by (simp add: d')
  then have ids: "p_id ` set (products d') = p_id ` set (products d)" by simp
  have keeps: "x \<in> s_id ` set (suppliers d')" if "x \<in> s_id ` set (suppliers d)" "x \<noteq> i" for x
    unfolding d' using that by auto
  show ?thesis
  proof (rule wf_refsI)
    fix r assume "r \<in> set (stock_levels d')"
    then show "sl_product_id r \<in> p_id ` set (products d') \<and>
        sl_warehouse_id r \<in> w_id ` set (warehouses d')"
      unfolding ids using w(1) [of r] by (simp add: d')
  next
    fix r assume "r \<in> set (stock_movements d')"
    then show "sm_product_id r \<in> p_id ` set (products d') \<and>
        sm_warehouse_id r \<in> w_id ` set (warehouses d')"
      unfolding ids using w(2) [of r] by (simp add: d')
  next
    fix r assume "r \<in> set (purchase_orders d')"
    then have r: "r \<in> set (purchase_orders d)" by (simp add: d')
    then show "po_supplier_id r \<in> s_id ` set (suppliers d') \<and>
        po_warehouse_id r \<in> w_id ` set (warehouses d')"
      using w(3) [of r] free [of r] keeps [of "po_supplier_id r"] by (simp add: d')
  next
    fix r assume "r \<in> set (purchase_order_items d')"
    then show "it_purchase_order_id r \<in> po_id ` set (purchase_orders d') \<and>
        it_product_id r \<in> p_id ` set (products d')"
      unfolding ids using w(4) [of r] by (simp add: d')
  next
    fix r s assume r: "r \<in> set (products d')" "p_supplier_id r = Some s"
    then obtain r0 where r0: "r0 \<in> set (products d)" "r = ?g r0" by (auto simp: d')
    with r(2) have "p_supplier_id r0 = Some s" "s \<noteq> i" by (auto split: if_splits)
    with r0(1) have "s \<in> s_id ` set (suppliers d)" using w(5) by blast
    with \<open>s \<noteq> i\<close> show "s \<in> s_id ` set (suppliers d')" by (rule keeps [rotated])
  qed
qed

lemma wf_refs_delete_purchase_order:
  assumes "wf_refs d" "delete_purchase_order d i = Inr d'"
  shows "wf_refs d'"
proof -
  from assms(2) have d': "d' = d\<lparr>purchase_orders := filter (\<lambda>r. po_id r \<noteq> i) (purchase_orders d),
           purchase_order_items :=
             filter (\<lambda>r. it_purchase_order_id r \<noteq> i) (purchase_order_items d)\<rparr>"
    by (simp add: delete_purchase_order_def)
  note w = wf_refsD [OF assms(1)]
  have keepo: "x \<in> po_id ` set (purchase_orders d')" if "x \<in> po_id ` set (purchase_orders d)" "x \<noteq> i" for x
    unfolding d' using that by auto
  show ?thesis
  proof (rule wf_refsI)
    fix r assume "r \<in> set (stock_levels d')"
    then show "sl_product_id r \<in> p_id ` set (products d') \<and>
        sl_warehouse_id r \<in> w_id ` set (warehouses d')"
      using w(1) [of r] by (simp add: d')
  next
    fix r assume "r \<in> set (stock_movements d')"
    then show "sm_product_id r \<in> p_id ` set (products d') \<and>
        sm_warehouse_id r \<in> w_id ` set (warehouses d')"
      using w(2) [of r] by (simp add: d')
  next
    fix r assume "r \<in> set (purchase_orders d')"
    then show "po_supplier_id r \<in> s_id ` set (suppliers d') \<and>
        po_warehouse_id r \<in> w_id ` set (warehouses d')"
      using w(3) [of r] by (simp add: d')
  next
    fix r assume "r \<in> set (purchase_order_items d')"
    then have r: "r \<in> set (purchase_order_items d)" "it_purchase_order_id r \<noteq> i" by (simp_all add: d')
    then show "it_purchase_order_id r \<in> po_id ` set (purchase_orders d') \<and>
        it_product_id r \<in> p_id ` set (products d')"
      using w(4) [of r] keepo by (simp add: d')
  next
    fix r s assume "r \<in> set (products d')" "p_supplier_id r = Some s"
    then show "s \<in> s_id ` set (suppliers d')" using w(5) [of r s] by (simp add: d')
  qed
qed

text \<open>
  A write that removes no supplier, warehouse, product or order, and whose rows either
  keep the keys of an earlier row or were checked against the tables, keeps the
  references.
\<close>

lemma wf_refs_step:
  assumes "wf_refs d"
    and "s_id ` set (suppliers d) \<subseteq> s_id ` set (suppliers d')"
    and "w_id ` set (warehouses d) \<subseteq> w_id ` set (warehouses d')"
    and "p_id ` set (products d) \<subseteq> p_id ` set (products d')"
    and "po_id ` set (purchase_orders d) \<subseteq> po_id ` set (purchase_orders d')"
    and "\<And>r. r \<in> set (stock_levels d') \<Longrightarrow>
           (\<exists>r0 \<in> set (stock_levels d). sl_product_id r = sl_product_id r0 \<and>
              sl_warehouse_id r = sl_warehouse_id r0) \<or>
           sl_product_id r \<in> p_id ` set (products d) \<and> sl_warehouse_id r \<in> w_id ` set (warehouses d)"
    and "\<And>r. r \<in> set (stock_movements d') \<Longrightarrow> r \<in> set (stock_movements d) \<or>
           sm_product_id r \<in> p_id ` set (products d) \<and> sm_warehouse_id r \<in> w_id ` set (warehouses d)"
    and "\<And>r. r \<in> set (purchase_orders d') \<Longrightarrow> r \<in> set (purchase_orders d) \<or>
           po_supplier_id r \<in> s_id ` set (suppliers d) \<and> po_warehouse_id r \<in> w_id ` set (warehouses d)"
    and "\<And>r. r \<in> set (purchase_order_items d') \<Longrightarrow>
           (\<exists>r0 \<in> set (purchase_order_items d). it_purchase_order_id r = it_purchase_order_id r0 \<and>
              it_product_id r = it_product_id r0) \<or>
           it_purchase_order_id r \<in> po_id ` set (purchase_orders d) \<and>
           it_product_id r \<in> p_id ` set (products d)"
    and "\<And>r s. r \<in> set (products d') \<Longrightarrow> p_supplier_id r = Some s \<Longrightarrow>
           r \<in> set (products d) \<or> s \<in> s_id ` set (suppliers d)"
  shows "wf_refs d'"
proof (rule wf_refsI)
  note w = wf_refsD [OF assms(1)]
  note s = subsetD [OF assms(2)] and wh = subsetD [OF assms(3)]
    and p = subsetD [OF assms(4)] and o = subsetD [OF assms(5)]
  { fix r assume "r \<in> set (stock_levels d')"
    from assms(6) [OF this] w(1)
    have "sl_product_id r \<in> p_id ` set (products d) \<and> sl_warehouse_id r \<in> w_id ` set (warehouses d)"
      by metis
    then show "sl_product_id r \<in> p_id ` set (products d') \<and>
        sl_warehouse_id r \<in> w_id ` set (warehouses d')"
      using p wh by blast }
  { fix r assume "r \<in> set (stock_movements d')"
    from assms(7) [OF this] w(2)
    have "sm_product_id r \<in> p_id ` set (products d) \<and> sm_warehouse_id r \<in> w_id ` set (warehouses d)"
      by metis
    then show "sm_product_id r \<in> p_id ` set (products d') \<and>
        sm_warehouse_id r \<in> w_id ` set (warehouses d')"
      using p wh by blast }
  { fix r assume "r \<in> set (purchase_orders d')"
    from assms(8) [OF this] w(3)
    have "po_supplier_id r \<in> s_id ` set (suppliers d) \<and> po_warehouse_id r \<in> w_id ` set (warehouses d)"
      by metis
    then show "po_supplier_id r \<in> s_id ` set (suppliers d') \<and>
        po_warehouse_id r \<in> w_id ` set (warehouses d')"
      using s wh by blast }
  { fix r assume "r \<in> set (purchase_order_items d')"
    from assms(9) [OF this] w(4)
    have "it_purchase_order_id r \<in> po_id ` set (purchase_orders d) \<and>
        it_product_id r \<in> p_id ` set (products d)"
      by metis
    then show "it_purchase_order_id r \<in> po_id ` set (purchase_orders d') \<and>
        it_product_id r \<in> p_id ` set (products d')"
      using o p by blast }
  { fix r s' assume "r \<in> set (products d')" "p_supplier_id r = Some s'"
    from assms(10) [OF this] w(5) this(2)
    have "s' \<in> s_id ` set (suppliers d)" by metis
    then show "s' \<in> s_id ` set (suppliers d')" using s by blast }
qed

lemma wf_refs_delete_items_of_order:
  "wf_refs d \<Longrightarrow> delete_items_of_order d i = Inr d' \<Longrightarrow> wf_refs d'"
  by (erule wf_refs_step) (auto simp: delete_items_of_order_def)

lemma wf_refs_delete_stock_level:
  "wf_refs d \<Longrightarrow> delete_stock_level d i = Inr d' \<Longrightarrow> wf_refs d'"
  by (erule wf_refs_step) (auto simp: delete_stock_level_def)

lemma wf_refs_insert_stock_movement:
  assumes "wf_refs d" "insert_stock_movement d m = Inr d'"
  shows "wf_refs d'"
proof -
  from assms(2) have ok: "smi_product_id m \<in> p_id ` set (products d)"
      "smi_warehouse_id m \<in> w_id ` set (warehouses d)"
    by (simp_all add: insert_stock_movement_def exists_iff split: if_splits)
  from assms(2) obtain row where d': "d' = d\<lparr>stock_movements := stock_movements d @ [row],
      next_uuid := Suc (next_uuid d)\<rparr>"
      "sm_product_id row = smi_product_id m" "sm_warehouse_id row = smi_warehouse_id m"
    by (auto simp: insert_stock_movement_def split: if_splits)
  show ?thesis
    by (rule wf_refs_step [OF assms(1)]) (use ok d'(2,3) in \<open>auto simp: d'(1)\<close>)
qed

lemma wf_refs_insert_stock_level:
  assumes "wf_refs d" "insert_stock_level d ins = Inr d'"
  shows "wf_refs d'"
proof -
  let ?row = "new_stock_level (next_uuid d) (clock d) ins"
  note r = insert_stock_level_Inr [OF assms(2)]
  from assms(2) have "stock_level_refs_ok d ?row"
    by (auto simp: insert_stock_level_def Let_def split: if_splits)
  then have ok: "sl_product_id ?row \<in> p_id ` set (products d)"
      "sl_warehouse_id ?row \<in> w_id ` set (warehouses d)"
    by (simp_all add: stock_level_refs_ok_def exists_iff)
  show ?thesis
    by (rule wf_refs_step [OF assms(1)]) (use ok in \<open>auto simp: r(1)\<close>)
qed

lemma wf_refs_update_stock_level:
  assumes "wf_refs d" "update_stock_level d i upd = Inr d'"
  shows "wf_refs d'"
proof -
  let ?f = "\<lambda>r. if sl_id r = i then apply_stock_level_update (clock d) upd r else r"
  note r = update_stock_level_Inr [OF assms(2)]
  from assms(2)
  have w: "list_all (stock_level_refs_ok d) (filter (\<lambda>r. sl_id r = i) (map ?f (stock_levels d)))"
    by (auto simp: update_stock_level_def Let_def split: if_splits)
  have rows: "(\<exists>r0 \<in> set (stock_levels d). sl_product_id x = sl_product_id r0 \<and>
              sl_warehouse_id x = sl_warehouse_id r0) \<or>
           sl_product_id x \<in> p_id ` set (products d) \<and> sl_warehouse_id x \<in> w_id ` set (warehouses d)"
    if x: "x \<in> set (stock_levels d')" for x
  proof -
    from x obtain x0 where x0: "x0 \<in> set (stock_levels d)" "x = ?f x0" by (auto simp: r(1))
    show ?thesis
    proof (cases "sl_id x0 = i")
      case True
      then have "x \<in> set (filter (\<lambda>r. sl_id r = i) (map ?f (stock_levels d)))"
        using x0 by (auto simp: apply_stock_level_update_def Let_def)
      then have "stock_level_refs_ok d x" using w unfolding list_all_iff by blast
      then show ?thesis by (simp add: stock_level_refs_ok_def exists_iff)
    next
      case False
      then have "x = x0" using x0(2) by simp
      then show ?thesis using x0(1) by blast
    qed
  qed
  show ?thesis
    by (rule wf_refs_step [OF assms(1)]) (use rows in \<open>auto simp: r(1)\<close>)
qed

lemma wf_refs_insert_purchase_order:
  assumes "wf_refs d" "insert_purchase_order d ins = Inr (d', row)"
  shows "wf_refs d'"
proof -
  note r = insert_purchase_order_Inr [OF assms(2)]
  from assms(2) have "supplier_exists d (po_supplier_id row) \<and> warehouse_exists d (po_warehouse_id row)"
    by (auto simp: insert_purchase_order_def Let_def split: option.splits sum.splits if_splits)
  then have ok: "po_supplier_id row \<in> s_id ` set (suppliers d)"
      "po_warehouse_id row \<in> w_id ` set (warehouses d)"
    by (simp_all add: exists_iff)
  show ?thesis
    by (rule wf_refs_step [OF assms(1)]) (use ok in \<open>auto simp: r(1)\<close>)
qed

lemma build_item_refs:
  assumes "build_item d i ins = Inr row"
  shows "it_purchase_order_id row \<in> po_id ` set (purchase_orders d)"
    and "it_product_id row \<in> p_id ` set (products d)"
proof -
  from assms obtain p where p: "iti_product_id ins = Some p"
    and e: "purchase_order_exists d (iti_purchase_order_id ins)" "product_exists d p"
    and row: "it_purchase_order_id row = iti_purchase_order_id ins" "it_product_id row = p"
    unfolding build_item_def
    by (auto split: if_splits option.splits sum.splits prod.splits simp: item_row_sel)
  from e row show "it_purchase_order_id row \<in> po_id ` set (purchase_orders d)"
    and "it_product_id row \<in> p_id ` set (products d)"
    by (simp_all add: exists_iff)
qed

lemma build_items_refs:
  assumes "build_items d i payload = Inr rows" "row \<in> set rows"
  shows "it_purchase_order_id row \<in> po_id ` set (purchase_orders d) \<and>
         it_product_id row \<in> p_id ` set (products d)"
  using assms
proof (induction payload arbitrary: i rows)
  case Nil
  then show ?case by simp
next
  case (Cons ins rest)
  from Cons.prems(1) obtain r rows' where r: "build_item d i ins = Inr r"
      "build_items d (Suc i) rest = Inr rows'" "rows = r # rows'"
    by (auto split: sum.splits)
  show ?case
  proof (cases "row = r")
    case True
    then show ?thesis using build_item_refs [OF r(1)] by simp
  next
    case False
    then have "row \<in> set rows'" using Cons.prems(2) r(3) by simp
    then show ?thesis by (rule Cons.IH [OF r(2)])
  qed
qed

lemma wf_refs_insert_purchase_order_items:
  assumes "wf_refs d" "insert_purchase_order_items d payload = Inr d'"
  shows "wf_refs d'"
proof -
  from assms(2) obtain rows where rows: "build_items d (next_uuid d) payload = Inr rows"
    and d': "d' = d\<lparr>purchase_order_items := purchase_order_items d @ rows,
            next_uuid := next_uuid d + length rows\<rparr>"
    by (rule insert_purchase_order_items_Inr)
  show ?thesis
    by (rule wf_refs_step [OF assms(1)])
       (use build_items_refs [OF rows] in \<open>auto simp: d'\<close>)
qed

lemma update_item_rows_mem:
  assumes "update_item_rows i upd rows = Inr rows'" "r \<in> set rows'"
  shows "\<exists>r0 \<in> set rows. it_purchase_order_id r = it_purchase_order_id r0 \<and>
           it_product_id r = it_product_id r0"
  using assms
proof (induction rows arbitrary: rows')
  case Nil
  then show ?case by simp
next
  case (Cons x rest)
  from Cons.prems(1) obtain x' rest' where x: "(if it_id x = i then update_item_row upd x else Inr x) = Inr x'"
      "update_item_rows i upd rest = Inr rest'" "rows' = x' # rest'"
    by (auto split: sum.splits)
  have same: "it_purchase_order_id x' = it_purchase_order_id x \<and> it_product_id x' = it_product_id x"
    using x(1) by (auto split: if_splits dest: update_item_row_Inr)
  show ?case
  proof (cases "r = x'")
    case True
    then show ?thesis using same by simp
  next
    case False
    then have "r \<in> set rest'" using Cons.prems(2) x(3) by simp
    from Cons.IH [OF x(2) this] show ?thesis by auto
  qed
qed

lemma wf_refs_update_purchase_order_item:
  assumes "wf_refs d" "update_purchase_order_item d i upd = Inr d'"
  shows "wf_refs d'"
proof -
  from assms(2) obtain rows where rows: "update_item_rows i upd (purchase_order_items d) = Inr rows"
    and d': "d' = d\<lparr>purchase_order_items := rows\<rparr>"
    by (auto simp: update_purchase_order_item_def split: if_splits sum.splits)
  show ?thesis
    by (rule wf_refs_step [OF assms(1)])
       (use update_item_rows_mem [OF rows] in \<open>auto simp: d'\<close>)
qed

lemma wf_refs_update_purchase_order:
  assumes "wf_refs d" "update_purchase_order d i upd = Inr d'"
  shows "wf_refs d'"
proof -
  from assms(2) obtain s w c where
    s: "pou_supplier_id upd = Some s" and w: "pou_warehouse_id upd = Some w"
    and c: "to_decimal_10_2 (pou_total_amount upd) = Inr c"
    by (cases "pou_supplier_id upd"; cases "pou_warehouse_id upd";
        cases "to_decimal_10_2 (pou_total_amount upd)")
       (simp_all add: update_purchase_order_def)
  define g :: "purchase_order \<Rightarrow> purchase_order" where "g = (\<lambda>r. if po_id r = i
                               then r\<lparr>po_supplier_id := s, po_warehouse_id := w,
                                      po_order_date := pou_order_date upd,
                                      po_expected_date := pou_expected_date upd,
                                      po_status := pou_status upd, po_total_amount := c,
                                      po_notes := pou_notes upd, po_updated_at := clock d\<rparr>
                               else r)"
  from assms(2) have "d\<lparr>purchase_orders := map g (purchase_orders d)\<rparr> = d'"
    unfolding g_def by (simp add: update_purchase_order_def s w c split: if_splits)
  then have d': "d' = d\<lparr>purchase_orders := map g (purchase_orders d)\<rparr>" by (rule sym)
  from assms(2) have ok: "purchase_order_exists d i \<Longrightarrow>
      s \<in> s_id ` set (suppliers d) \<and> w \<in> w_id ` set (warehouses d)"
    by (simp add: update_purchase_order_def s w c exists_iff split: if_splits)
  have g_id: "po_id (g r) = po_id r" for r by (simp add: g_def)
  have ids: "po_id ` set (purchase_orders d) \<subseteq> po_id ` set (purchase_orders d')"
  proof
    fix x assume "x \<in> po_id ` set (purchase_orders d)"
    then obtain r where "r \<in> set (purchase_orders d)" "x = po_id r" by blast
    then have "g r \<in> set (purchase_orders d')" "x = po_id (g r)" by (simp_all add: d' g_id)
    then show "x \<in> po_id ` set (purchase_orders d')" by blast
  qed
  have rows: "r \<in> set (purchase_orders d) \<or>
           po_supplier_id r \<in> s_id ` set (suppliers d) \<and> po_warehouse_id r \<in> w_id ` set (warehouses d)"
    if r: "r \<in> set (purchase_orders d')" for r
  proof -
    from r obtain r0 where r0: "r0 \<in> set (purchase_orders d)" "r = g r0" by (auto simp: d')
    show ?thesis
    proof (cases "po_id r0 = i")
      case True
      then have "purchase_order_exists d i" using r0(1) by (auto simp: exists_iff)
      from ok [OF this] True show ?thesis by (simp add: r0(2) g_def)
    next
      case False
      then show ?thesis using r0 by (simp add: g_def)
    qed
  qed
  show ?thesis
  proof (rule wf_refs_step [OF assms(1)])
    show "po_id ` set (purchase_orders d) \<subseteq> po_id ` set (purchase_orders d')" by (rule ids)
    show "\<And>r. r \<in> set (purchase_orders d') \<Longrightarrow> r \<in> set (purchase_orders d) \<or>
           po_supplier_id r \<in> s_id ` set (suppliers d) \<and> po_warehouse_id r \<in> w_id ` set (warehouses d)"
      by (rule rows)
  qed (auto simp: d')
qed

text \<open>The two handlers, every operation, and so every store that can be reached.\<close>

lemma wf_refs_handleSubmit: "wf_refs d \<Longrightarrow> wf_refs (handleSubmit faults today d f)"
  by (rule handleSubmit_preserves)
     (auto intro: wf_refs_insert_stock_movement wf_refs_update_stock_level
        wf_refs_insert_stock_level)

lemma wf_refs_handleSave:
  "wf_refs d \<Longrightarrow> wf_refs (snd (handleSave faults d mode selectedOrder f orderItems))"
  by (rule handleSave_preserves)
     (auto intro: wf_refs_insert_purchase_order wf_refs_update_purchase_order
        wf_refs_delete_items_of_order wf_refs_insert_purchase_order_items)

lemma wf_refs_keep:
  "wf_refs d \<Longrightarrow> (\<And>d'. r = Inr d' \<Longrightarrow> wf_refs d') \<Longrightarrow> wf_refs (keep d r)"
  by (cases r) (simp_all add: keep_def)

lemma wf_refs_tick: "wf_refs d \<Longrightarrow> wf_refs (d\<lparr>clock := Suc (clock d)\<rparr>)"
  by (erule wf_refs_step) auto

lemma wf_refs_exec: "wf_refs d \<Longrightarrow> wf_refs (exec d x)"
proof (cases x)
  case (SubmitMovement faults today f)
  assume "wf_refs d" then show ?thesis unfolding SubmitMovement by (simp add: wf_refs_handleSubmit)
next
  case (SaveOrder faults mode selectedOrder f orderItems)
  assume "wf_refs d" then show ?thesis unfolding SaveOrder by (simp add: wf_refs_handleSave)
next
  case Tick
  assume "wf_refs d" then show ?thesis unfolding Tick by (simp add: wf_refs_tick)
qed (auto intro!: wf_refs_keep
      intro: wf_refs_insert_supplier wf_refs_insert_warehouse wf_refs_insert_product
        wf_refs_delete_supplier wf_refs_delete_warehouse wf_refs_delete_product
        wf_refs_delete_purchase_order wf_refs_insert_stock_level wf_refs_update_stock_level
        wf_refs_delete_stock_level wf_refs_insert_purchase_order_items
        wf_refs_update_purchase_order_item)

lemma wf_refs_foldl: "wf_refs d \<Longrightarrow> wf_refs (foldl exec d xs)"
  by (induction xs arbitrary: d) (simp_all add: wf_refs_exec)

lemma wf_refs_empty: "wf_refs empty_db"
  by (simp add: wf_refs_def empty_db_def)

lemma wf_refs_run: "wf_refs (run xs)"
  unfolding run_def by (rule wf_refs_foldl) (rule wf_refs_empty)

subsection \<open>The movement handler, request by request\<close>

lemma select_stock_level_Some:
  "select_stock_level d p w = Inr (Some cs) \<longleftrightarrow>
     filter (\<lambda>r. sl_product_id r = p \<and> sl_warehouse_id r = w) (stock_levels d) = [cs]"
  by (auto simp: select_stock_level_def split: list.splits)


lemma select_stock_level_cong:
  "stock_levels d' = stock_levels d \<Longrightarrow> select_stock_level d' p w = select_stock_level d p w"
  by (simp add: select_stock_level_def)

lemma filter_singleton_mem:
  assumes "filter P xs = [x]" shows "x \<in> set xs" "P x"
proof -
  have "x \<in> set (filter P xs)" by (simp add: assms)
  then show "x \<in> set xs" "P x" by simp_all
qed

lemma handleSubmit_no_fault:
  assumes "faults 0 = NoFault" "faults 1 = NoFault" "faults 2 = NoFault"
    and "insert_stock_movement d (movementData f) = Inr d1"
  shows "handleSubmit faults today d f =
     (case select_stock_level d (fd_product_id f) (fd_warehouse_id f) of
        Inr (Some cs) \<Rightarrow> keep d1 (update_stock_level d1 (sl_id cs) (level_update cs f today))
      | _ \<Rightarrow> keep d1 (insert_stock_level d1 (level_insert f)))"
proof -
  have "select_stock_level d1 (fd_product_id f) (fd_warehouse_id f) =
        select_stock_level d (fd_product_id f) (fd_warehouse_id f)"
    by (rule select_stock_level_cong) (rule insert_stock_movement_Inr(1) [OF assms(4)])
  then show ?thesis
    using assms
    by (simp add: handleSubmit_def send_def keep_def split: sum.splits option.splits)
qed


lemma level_update_not_generated [simp]:
  "slu_available_quantity (level_update cs f today) = None"
  by (simp add: level_update_def)

lemma sl_pair_level_update [simp]:
  "sl_pair (apply_stock_level_update now (level_update cs f today) r) = sl_pair r"
  by (simp add: apply_stock_level_update_def level_update_def sl_pair_def Let_def)


lemma filter_id_distinct:
  assumes "distinct (map sl_id rows)" "cs \<in> set rows"
  shows "filter (\<lambda>r. sl_id r = sl_id cs) rows = [cs]"
  using assms by (induction rows) (auto simp: filter_empty_conv rev_image_eqI)



subsection \<open>The small store, evaluated\<close>

lemma shop_eq:
  "shop = \<lparr>suppliers = [\<lparr>s_id = 0, s_name = ''Acme''\<rparr>],
     warehouses = [\<lparr>w_id = 1, w_name = ''Main''\<rparr>],
     products = [\<lparr>p_id = 2, p_sku = ''A-1'', p_name = ''Bolt'', p_supplier_id = Some 0\<rparr>],
     stock_levels = [], stock_movements = [], purchase_orders = [],
     purchase_order_items = [], next_uuid = 3, clock = 0\<rparr>"
  by (simp add: shop_def run_def first_rows_def empty_db_def keep_def insert_supplier_def
      insert_warehouse_def insert_product_def supplier_exists_def)

lemma run_snoc: "run (xs @ [x]) = exec (run xs) x"
  by (simp add: run_def)

lemma insert_movement_shop:
  "in_int4 q \<Longrightarrow> insert_stock_movement shop (movementData (movement t q)) =
     Inr (shop\<lparr>stock_movements :=
       [\<lparr>sm_id = 3, sm_product_id = 2, sm_warehouse_id = 1, sm_movement_type = t,
         sm_quantity = q, sm_reference_number = [], sm_notes = [], sm_created_by = None,
         sm_created_at = 0\<rparr>], next_uuid := 4\<rparr>)"
  by (simp add: shop_eq insert_stock_movement_def movementData_def movement_def
      product_exists_def warehouse_exists_def)

lemma stocked_eq:
  "stocked = \<lparr>suppliers = [\<lparr>s_id = 0, s_name = ''Acme''\<rparr>],
     warehouses = [\<lparr>w_id = 1, w_name = ''Main''\<rparr>],
     products = [\<lparr>p_id = 2, p_sku = ''A-1'', p_name = ''Bolt'', p_supplier_id = Some 0\<rparr>],
     stock_levels = [\<lparr>sl_id = 4, sl_product_id = 2, sl_warehouse_id = 1, sl_quantity = 10,
        sl_reserved_quantity = 0, sl_available_quantity = 10, sl_last_counted_at = None,
        sl_updated_at = 0\<rparr>],
     stock_movements = [\<lparr>sm_id = 3, sm_product_id = 2, sm_warehouse_id = 1,
        sm_movement_type = IN, sm_quantity = 10, sm_reference_number = [], sm_notes = [],
        sm_created_by = None, sm_created_at = 0\<rparr>],
     purchase_orders = [], purchase_order_items = [], next_uuid = 5, clock = 0\<rparr>"
proof -
  have "stocked = handleSubmit no_faults 0 shop (movement IN 10)"
    by (simp add: stocked_def shop_def run_snoc)
  also have "\<dots> = keep (shop\<lparr>stock_movements :=
       [\<lparr>sm_id = 3, sm_product_id = 2, sm_warehouse_id = 1, sm_movement_type = IN,
         sm_quantity = 10, sm_reference_number = [], sm_notes = [], sm_created_by = None,
         sm_created_at = 0\<rparr>], next_uuid := 4\<rparr>)
       (insert_stock_level (shop\<lparr>stock_movements :=
       [\<lparr>sm_id = 3, sm_product_id = 2, sm_warehouse_id = 1, sm_movement_type = IN,
         sm_quantity = 10, sm_reference_number = [], sm_notes = [], sm_created_by = None,
         sm_created_at = 0\<rparr>], next_uuid := 4\<rparr>) (level_insert (movement IN 10)))"
    by (subst handleSubmit_no_fault [OF _ _ _ insert_movement_shop])
       (simp_all add: no_faults_def in_int4_def select_stock_level_def shop_eq)
  also have "\<dots> = \<lparr>suppliers = [\<lparr>s_id = 0, s_name = ''Acme''\<rparr>],
     warehouses = [\<lparr>w_id = 1, w_name = ''Main''\<rparr>],
     products = [\<lparr>p_id = 2, p_sku = ''A-1'', p_name = ''Bolt'', p_supplier_id = Some 0\<rparr>],
     stock_levels = [\<lparr>sl_id = 4, sl_product_id = 2, sl_warehouse_id = 1, sl_quantity = 10,
        sl_reserved_quantity = 0, sl_available_quantity = 10, sl_last_counted_at = None,
        sl_updated_at = 0\<rparr>],
     stock_movements = [\<lparr>sm_id = 3, sm_product_id = 2, sm_warehouse_id = 1,
        sm_movement_type = IN, sm_quantity = 10, sm_reference_number = [], sm_notes = [],
        sm_created_by = None, sm_created_at = 0\<rparr>],
     purchase_orders = [], purchase_order_items = [], next_uuid = 5, clock = 0\<rparr>"
    by (simp add: shop_eq keep_def insert_stock_level_def level_insert_def movement_def
        quantityChange_def new_stock_level_def stock_level_in_range_def in_int4_def
        stock_level_refs_ok_def product_exists_def warehouse_exists_def sl_pair_def)
  finally show ?thesis .
qed



subsection \<open>A movement against an existing level, and against none\<close>





section \<open>Movement application\<close>





subsection \<open>What a submission can write\<close>

text \<open>
  Whatever the three requests do, the handler writes at most a movement, and then either
  the level it found for the pair or a new level for the pair.
\<close>

lemma handleSubmit_steps:
  assumes d: "P d"
    and movement: "\<And>d'. insert_stock_movement d (movementData f) = Inr d' \<Longrightarrow> P d'"
    and update: "\<And>d0 cs d'. P d0 \<Longrightarrow>
        select_stock_level d0 (fd_product_id f) (fd_warehouse_id f) = Inr (Some cs) \<Longrightarrow>
        update_stock_level d0 (sl_id cs) (level_update cs f today) = Inr d' \<Longrightarrow> P d'"
    and create: "\<And>d0 d'. P d0 \<Longrightarrow> insert_stock_level d0 (level_insert f) = Inr d' \<Longrightarrow> P d'"
  shows "P (handleSubmit faults today d f)"
proof (cases "send (faults 0) (insert_stock_movement d (movementData f))")
  case Rejected
  then show ?thesis using d by (simp add: handleSubmit_def)
next
  case (Resolved inserted)
  define d1 where "d1 = keep d inserted"
  have d1: "P d1"
    unfolding d1_def by (rule keep_send [where P = P, OF Resolved d]) (rule movement)
  show ?thesis
  proof (cases "send (faults 1) (select_stock_level d1 (fd_product_id f) (fd_warehouse_id f))")
    case Rejected
    then show ?thesis using d1 Resolved by (simp add: handleSubmit_def d1_def)
  next
    case sel: (Resolved selected)
    show ?thesis
    proof (cases "case selected of Inl e \<Rightarrow> None | Inr row \<Rightarrow> row")
      case None
      show ?thesis
      proof (cases "send (faults 2) (insert_stock_level d1 (level_insert f))")
        case Rejected
        then show ?thesis using d1 Resolved sel None by (simp add: handleSubmit_def d1_def)
      next
        case cr: (Resolved created)
        have "P (keep d1 created)"
          by (rule keep_send [where P = P, OF cr d1]) (rule create [OF d1])
        then show ?thesis using Resolved sel None cr by (simp add: handleSubmit_def d1_def)
      qed
    next
      case (Some cs)
      then have "selected = Inr (Some cs)" by (cases selected) simp_all
      with send_Resolved [OF sel]
      have found: "select_stock_level d1 (fd_product_id f) (fd_warehouse_id f) = Inr (Some cs)"
        by auto
      show ?thesis
      proof (cases "send (faults 2) (update_stock_level d1 (sl_id cs) (level_update cs f today))")
        case Rejected
        then show ?thesis using d1 Resolved sel Some by (simp add: handleSubmit_def d1_def)
      next
        case up: (Resolved updated)
        have "P (keep d1 updated)"
          by (rule keep_send [where P = P, OF up d1]) (rule update [OF d1 found])
        then show ?thesis using Resolved sel Some up by (simp add: handleSubmit_def d1_def)
      qed
    qed
  qed
qed

lemma other_pairs_after_update:
  assumes wf: "wf_db d"
    and found: "select_stock_level d p w = Inr (Some cs)"
    and upd: "update_stock_level d (sl_id cs) (level_update cs f today) = Inr d'"
  shows "filter (\<lambda>r. sl_pair r \<noteq> (p, w)) (stock_levels d') =
         filter (\<lambda>r. sl_pair r \<noteq> (p, w)) (stock_levels d)"
proof -
  let ?g = "\<lambda>r. if sl_id r = sl_id cs
                 then apply_stock_level_update (clock d) (level_update cs f today) r else r"
  let ?Q = "\<lambda>r. sl_pair r \<noteq> (p, w)"
  have sel: "filter (\<lambda>r. sl_product_id r = p \<and> sl_warehouse_id r = w) (stock_levels d) = [cs]"
    using found by (simp add: select_stock_level_Some)
  note c = filter_singleton_mem [OF sel]
  have dist: "distinct (map sl_id (stock_levels d))"
    using wf by (simp add: wf_db_def wf_levels_def)
  have rows: "stock_levels d' = map ?g (stock_levels d)"
    by (simp add: update_stock_level_Inr(1) [OF upd])
  have "filter ?Q (map ?g (stock_levels d)) = map ?g (filter (?Q \<circ> ?g) (stock_levels d))"
    by (simp add: filter_map)
  also have "filter (?Q \<circ> ?g) (stock_levels d) = filter ?Q (stock_levels d)"
    by (rule filter_cong [OF refl]) simp
  also have "map ?g (filter ?Q (stock_levels d)) = filter ?Q (stock_levels d)"
  proof (rule map_idI)
    fix r assume "r \<in> set (filter ?Q (stock_levels d))"
    then have r: "r \<in> set (stock_levels d)" "sl_pair r \<noteq> (p, w)" by simp_all
    have "sl_id r \<noteq> sl_id cs"
    proof
      assume "sl_id r = sl_id cs"
      then have "r = cs" using dist r(1) c(1) by (meson distinct_map inj_onD)
      then show False using r(2) c(2) by (simp add: sl_pair_def)
    qed
    then show "?g r = r" by simp
  qed
  finally show ?thesis by (simp add: rows)
qed

lemma other_pairs_after_insert:
  assumes "insert_stock_level d (level_insert f) = Inr d'"
  shows "filter (\<lambda>r. sl_pair r \<noteq> (fd_product_id f, fd_warehouse_id f)) (stock_levels d') =
         filter (\<lambda>r. sl_pair r \<noteq> (fd_product_id f, fd_warehouse_id f)) (stock_levels d)"
  by (simp add: insert_stock_level_Inr(1) [OF assms] new_stock_level_def level_insert_def
      sl_pair_def Let_def)

lemma other_pairs_after_submit:
  assumes "wf_db d"
  shows "filter (\<lambda>r. sl_pair r \<noteq> (fd_product_id f, fd_warehouse_id f))
           (stock_levels (handleSubmit faults today d f)) =
         filter (\<lambda>r. sl_pair r \<noteq> (fd_product_id f, fd_warehouse_id f)) (stock_levels d)"
proof -
  let ?F = "\<lambda>x. filter (\<lambda>r. sl_pair r \<noteq> (fd_product_id f, fd_warehouse_id f)) (stock_levels x)"
  have "wf_db (handleSubmit faults today d f) \<and> ?F (handleSubmit faults today d f) = ?F d"
  proof (rule handleSubmit_steps [where P = "\<lambda>x. wf_db x \<and> ?F x = ?F d"])
    show "wf_db d \<and> ?F d = ?F d" using assms by simp
  next
    fix d' assume "insert_stock_movement d (movementData f) = Inr d'"
    then show "wf_db d' \<and> ?F d' = ?F d"
      using wf_db_insert_stock_movement [OF assms] insert_stock_movement_Inr(1) by simp
  next
    fix d0 cs d'
    assume a: "wf_db d0 \<and> ?F d0 = ?F d"
      "select_stock_level d0 (fd_product_id f) (fd_warehouse_id f) = Inr (Some cs)"
      "update_stock_level d0 (sl_id cs) (level_update cs f today) = Inr d'"
    have "?F d' = ?F d0" using other_pairs_after_update [OF _ a(2,3)] a(1) by simp
    then show "wf_db d' \<and> ?F d' = ?F d"
      using a(1) wf_db_update_stock_level [OF _ a(3)] by simp
  next
    fix d0 d' assume a: "wf_db d0 \<and> ?F d0 = ?F d" "insert_stock_level d0 (level_insert f) = Inr d'"
    have "?F d' = ?F d0" by (rule other_pairs_after_insert [OF a(2)])
    then show "wf_db d' \<and> ?F d' = ?F d"
      using a(1) wf_db_insert_stock_level [OF _ a(2)] by simp
  qed
  then show ?thesis by simp
qed

lemma movements_after_submit:
  "stock_movements (handleSubmit faults today d f) = stock_movements d \<or>
   (\<exists>d1. insert_stock_movement d (movementData f) = Inr d1 \<and>
      stock_movements (handleSubmit faults today d f) = stock_movements d1)"
proof (rule handleSubmit_steps)
  show "stock_movements d = stock_movements d \<or>
   (\<exists>d1. insert_stock_movement d (movementData f) = Inr d1 \<and>
      stock_movements d = stock_movements d1)" by simp
next
  fix d' assume "insert_stock_movement d (movementData f) = Inr d'"
  then show "stock_movements d' = stock_movements d \<or>
   (\<exists>d1. insert_stock_movement d (movementData f) = Inr d1 \<and>
      stock_movements d' = stock_movements d1)" by simp
next
  fix d0 cs d'
  assume a: "stock_movements d0 = stock_movements d \<or>
   (\<exists>d1. insert_stock_movement d (movementData f) = Inr d1 \<and>
      stock_movements d0 = stock_movements d1)"
    "update_stock_level d0 (sl_id cs) (level_update cs f today) = Inr d'"
  have "stock_movements d' = stock_movements d0"
    by (simp add: update_stock_level_Inr(1) [OF a(2)])
  then show "stock_movements d' = stock_movements d \<or>
   (\<exists>d1. insert_stock_movement d (movementData f) = Inr d1 \<and>
      stock_movements d' = stock_movements d1)" using a(1) by simp
next
  fix d0 d'
  assume a: "stock_movements d0 = stock_movements d \<or>
   (\<exists>d1. insert_stock_movement d (movementData f) = Inr d1 \<and>
      stock_movements d0 = stock_movements d1)"
    "insert_stock_level d0 (level_insert f) = Inr d'"
  have "stock_movements d' = stock_movements d0"
    by (simp add: insert_stock_level_Inr(1) [OF a(2)])
  then show "stock_movements d' = stock_movements d \<or>
   (\<exists>d1. insert_stock_movement d (movementData f) = Inr d1 \<and>
      stock_movements d' = stock_movements d1)" using a(1) by simp
qed

text \<open>
  A failure after the movement is recorded: when the second or the third request is
  rejected or comes back with an error of its own, the movement stays and no level is
  written.
\<close>

lemma movement_recorded_level_unwritten:
  assumes "faults 0 = NoFault"
    and "insert_stock_movement d (movementData f) = Inr d1"
    and "faults 1 = Rejects \<or> faults 2 \<noteq> NoFault"
  shows "stock_movements (handleSubmit faults today d f) = stock_movements d1"
    and "stock_levels (handleSubmit faults today d f) = stock_levels d"
proof -
  have "stock_movements (handleSubmit faults today d f) = stock_movements d1 \<and>
        stock_levels (handleSubmit faults today d f) = stock_levels d"
  proof (cases "faults 1 = Rejects")
    case True
    then show ?thesis
      using assms(1,2) insert_stock_movement_Inr(1) [OF assms(2)]
      by (simp add: handleSubmit_def send_def keep_def)
  next
    case False
    with assms(3) have "faults 2 = ErrorResult \<or> faults 2 = Rejects"
      by (cases "faults 2") simp_all
    then show ?thesis
      using assms(1,2) insert_stock_movement_Inr(1) [OF assms(2)]
      by (cases "faults 1")
         (auto simp: handleSubmit_def send_def keep_def Let_def split: sum.splits option.splits)
  qed
  then show "stock_movements (handleSubmit faults today d f) = stock_movements d1"
    and "stock_levels (handleSubmit faults today d f) = stock_levels d"
    by simp_all
qed

text \<open>
  C8. Recording a TRANSFER writes, among the stock levels, only the level of the product
  and warehouse of the form, and the number it applies there is minus the quantity. The
  levels of every other pair, and so of every other warehouse, are the same rows before
  and after, whatever happens to the requests: nothing is added to a destination. At most
  one movement row is added.
\<close>

theorem transfer_touches_source_level_only:
  assumes "wf_db d" and "fd_movement_type f = TRANSFER"
  shows "filter (\<lambda>r. sl_pair r \<noteq> (fd_product_id f, fd_warehouse_id f))
           (stock_levels (handleSubmit faults today d f)) =
         filter (\<lambda>r. sl_pair r \<noteq> (fd_product_id f, fd_warehouse_id f)) (stock_levels d) \<and>
         filter (\<lambda>r. sl_warehouse_id r \<noteq> fd_warehouse_id f)
           (stock_levels (handleSubmit faults today d f)) =
         filter (\<lambda>r. sl_warehouse_id r \<noteq> fd_warehouse_id f) (stock_levels d) \<and>
         quantityChange f = - fd_quantity f \<and>
         length (stock_movements (handleSubmit faults today d f)) \<le>
           Suc (length (stock_movements d))"
proof -
  let ?after = "stock_levels (handleSubmit faults today d f)"
  let ?Q = "\<lambda>r. sl_pair r \<noteq> (fd_product_id f, fd_warehouse_id f)"
  let ?W = "\<lambda>r. sl_warehouse_id r \<noteq> fd_warehouse_id f"
  have pairs: "filter ?Q ?after = filter ?Q (stock_levels d)"
    by (rule other_pairs_after_submit [OF assms(1)])
  have sub: "filter ?W xs = filter ?W (filter ?Q xs)" for xs
    by (induction xs) (auto simp: sl_pair_def)
  have "filter ?W ?after = filter ?W (filter ?Q ?after)" by (rule sub)
  also have "\<dots> = filter ?W (filter ?Q (stock_levels d))" by (simp only: pairs)
  also have "\<dots> = filter ?W (stock_levels d)" by (rule sub [symmetric])
  finally have sites: "filter ?W ?after = filter ?W (stock_levels d)" .
  have sign: "quantityChange f = - fd_quantity f"
    using assms(2) by (simp add: quantityChange_def)
  have "length (stock_movements (handleSubmit faults today d f)) \<le> Suc (length (stock_movements d))"
    using movements_after_submit [of faults today d f]
    by (auto dest: insert_stock_movement_Inr(8))
  with pairs sites sign show ?thesis by simp
qed

theorem transfer_touches_source_level_only_witness:
  "wf_db two_sites \<and>
   map (\<lambda>r. (sl_warehouse_id r, sl_quantity r)) (stock_levels two_sites) = [(1, 10), (3, 4)] \<and>
   map (\<lambda>r. (sl_warehouse_id r, sl_quantity r))
     (stock_levels (handleSubmit no_faults 7 two_sites (movement TRANSFER 6))) = [(1, 4), (3, 4)] \<and>
   filter (\<lambda>r. sl_warehouse_id r \<noteq> 1)
     (stock_levels (handleSubmit no_faults 7 two_sites (movement TRANSFER 6))) =
   filter (\<lambda>r. sl_warehouse_id r \<noteq> 1) (stock_levels two_sites)"
proof -
  have wf: "wf_db two_sites" unfolding two_sites_def by (rule wf_db_run)
  have a: "map (\<lambda>r. (sl_warehouse_id r, sl_quantity r)) (stock_levels two_sites) = [(1, 10), (3, 4)]"
    by code_simp
  have b: "map (\<lambda>r. (sl_warehouse_id r, sl_quantity r))
     (stock_levels (handleSubmit no_faults 7 two_sites (movement TRANSFER 6))) = [(1, 4), (3, 4)]"
    by code_simp
  have "filter (\<lambda>r. sl_warehouse_id r \<noteq> fd_warehouse_id (movement TRANSFER 6))
     (stock_levels (handleSubmit no_faults 7 two_sites (movement TRANSFER 6))) =
   filter (\<lambda>r. sl_warehouse_id r \<noteq> fd_warehouse_id (movement TRANSFER 6)) (stock_levels two_sites)"
    using transfer_touches_source_level_only [OF wf, of "movement TRANSFER 6" no_faults 7]
    by (simp add: movement_def)
  then show ?thesis using wf a b by (simp add: movement_def)
qed

text \<open>
  C9. The handler sends the movement, then looks the level up, then writes the level, and
  reads the \<^verbatim>\<open>error\<close> of none of the three answers. A movement that the store refuses
  therefore does not stop the level write. On a level of 10 units, OUT with quantity
  2147483650 is refused as a movement (the quantity does not fit \<^verbatim>\<open>integer\<close>), and the
  level is written to 10 - 2147483650 all the same. And when the first request comes back
  with an error of its own, IN with quantity 5 records no movement and raises the level to
  15. In both runs a level changes and no movement is recorded.
\<close>

theorem level_written_without_movement:
  "map sl_quantity (stock_levels stocked) = [10] \<and>
   stock_movements (handleSubmit no_faults 7 stocked (movement OUT 2147483650)) =
     stock_movements stocked \<and>
   map sl_quantity (stock_levels (handleSubmit no_faults 7 stocked (movement OUT 2147483650))) =
     [- 2147483640] \<and>
   stock_movements (handleSubmit (no_faults(0 := ErrorResult)) 7 stocked (movement IN 5)) =
     stock_movements stocked \<and>
   map sl_quantity
     (stock_levels (handleSubmit (no_faults(0 := ErrorResult)) 7 stocked (movement IN 5))) = [15]"
  by (simp add: stocked_eq handleSubmit_def send_def no_faults_def movement_def movementData_def
      insert_stock_movement_def in_int4_def keep_def select_stock_level_def
      update_stock_level_def level_update_def quantityChange_def apply_stock_level_update_def
      stock_level_in_range_def stock_level_refs_ok_def product_exists_def warehouse_exists_def
      sl_pair_def)

section \<open>Constraints of the schema\<close>

lemma distinct_map_filter_le:
  "distinct (map f xs) \<Longrightarrow> length (filter (\<lambda>x. f x = k) xs) \<le> Suc 0"
proof (induction xs)
  case Nil
  then show ?case by simp
next
  case (Cons x xs)
  show ?case
  proof (cases "f x = k")
    case True
    with Cons.prems have "\<forall>y \<in> set xs. f y \<noteq> k" by (metis distinct.simps(2) imageI list.simps(9) set_map)
    then have "filter (\<lambda>x. f x = k) xs = []" by (simp add: filter_empty_conv)
    with True show ?thesis by simp
  next
    case False
    with Cons show ?thesis by simp
  qed
qed

text \<open>
  C3. In every store that the operations can reach, every stock level has
  available_quantity = quantity - reserved_quantity. A payload that carries a value for
  \<^verbatim>\<open>available_quantity\<close> is refused, on insert and on update, so no value of a caller
  is ever stored. The difference is not clamped: a reachable store holds a level whose
  available quantity is negative.
\<close>

theorem available_quantity_is_derived:
  "list_all (\<lambda>r. sl_available_quantity r = sl_quantity r - sl_reserved_quantity r)
     (stock_levels (run ops)) \<and>
   insert_stock_level d (ins\<lparr>sli_available_quantity := Some v\<rparr>) = Inl GeneratedAlways \<and>
   update_stock_level d i (upd\<lparr>slu_available_quantity := Some v\<rparr>) = Inl GeneratedAlways \<and>
   (\<exists>reserving. list_ex (\<lambda>r. sl_available_quantity r < 0) (stock_levels (run reserving)))"
proof -
  have "list_all available_ok (stock_levels (run ops))"
    using wf_db_run [of ops] by (simp add: wf_db_def wf_levels_def)
  then have a: "list_all (\<lambda>r. sl_available_quantity r = sl_quantity r - sl_reserved_quantity r)
     (stock_levels (run ops))"
    by (simp add: available_ok_def list_all_iff)
  have b: "insert_stock_level d (ins\<lparr>sli_available_quantity := Some v\<rparr>) = Inl GeneratedAlways"
    by (simp add: insert_stock_level_def Let_def)
  have c: "update_stock_level d i (upd\<lparr>slu_available_quantity := Some v\<rparr>) = Inl GeneratedAlways"
    by (simp add: update_stock_level_def Let_def)
  have "list_ex (\<lambda>r. sl_available_quantity r < 0)
     (stock_levels (run (first_rows @
        [CreateStockLevel \<lparr>sli_product_id = 2, sli_warehouse_id = 1, sli_quantity = Some 3,
           sli_reserved_quantity = Some 5, sli_available_quantity = None,
           sli_last_counted_at = None, sli_updated_at = None\<rparr>])))"
    by code_simp
  then have "\<exists>reserving. list_ex (\<lambda>r. sl_available_quantity r < 0) (stock_levels (run reserving))"
    by (rule exI)
  with a b c show ?thesis by simp
qed

theorem available_quantity_is_derived_witness:
  "map (\<lambda>r. (sl_quantity r, sl_reserved_quantity r, sl_available_quantity r))
     (stock_levels (run (first_rows @
        [SubmitMovement no_faults 0 (movement IN 10),
         UpdateStockLevel 4 \<lparr>slu_product_id = None, slu_warehouse_id = None,
           slu_quantity = None, slu_reserved_quantity = Some 12,
           slu_available_quantity = None, slu_last_counted_at = None,
           slu_updated_at = None\<rparr>,
         UpdateStockLevel 4 \<lparr>slu_product_id = None, slu_warehouse_id = None,
           slu_quantity = Some 50, slu_reserved_quantity = None,
           slu_available_quantity = Some 50, slu_last_counted_at = None,
           slu_updated_at = None\<rparr>]))) = [(10, 12, - 2)] \<and>
   list_all (\<lambda>r. sl_available_quantity r = sl_quantity r - sl_reserved_quantity r)
     (stock_levels (run (first_rows @ [SubmitMovement no_faults 0 (movement IN 10)])))"
proof -
  have "map (\<lambda>r. (sl_quantity r, sl_reserved_quantity r, sl_available_quantity r))
     (stock_levels (run (first_rows @
        [SubmitMovement no_faults 0 (movement IN 10),
         UpdateStockLevel 4 \<lparr>slu_product_id = None, slu_warehouse_id = None,
           slu_quantity = None, slu_reserved_quantity = Some 12,
           slu_available_quantity = None, slu_last_counted_at = None,
           slu_updated_at = None\<rparr>,
         UpdateStockLevel 4 \<lparr>slu_product_id = None, slu_warehouse_id = None,
           slu_quantity = Some 50, slu_reserved_quantity = None,
           slu_available_quantity = Some 50, slu_last_counted_at = None,
           slu_updated_at = None\<rparr>]))) = [(10, 12, - 2)]"
    by code_simp
  then show ?thesis
    using available_quantity_is_derived
      [of "first_rows @ [SubmitMovement no_faults 0 (movement IN 10)]"]
    by simp
qed

text \<open>
  C5. In every store that the operations can reach, no two stock levels have the same
  product and warehouse: for every pair at most one row exists. The operations are the
  creations, updates and deletions of the store and the movement handler, in any number
  and order.
\<close>

theorem one_level_per_pair:
  "distinct (map sl_pair (stock_levels (run ops))) \<and>
   length (filter (\<lambda>r. sl_pair r = (p, w)) (stock_levels (run ops))) \<le> 1"
proof -
  have "distinct (map sl_pair (stock_levels (run ops)))"
    using wf_db_run [of ops] by (simp add: wf_db_def wf_levels_def)
  then show ?thesis using distinct_map_filter_le [of sl_pair _ "(p, w)"] by simp
qed

theorem one_level_per_pair_witness:
  "map (\<lambda>r. (sl_pair r, sl_quantity r))
     (stock_levels (run (first_rows @
        [SubmitMovement no_faults 0 (movement IN 10),
         CreateStockLevel \<lparr>sli_product_id = 2, sli_warehouse_id = 1, sli_quantity = Some 3,
           sli_reserved_quantity = None, sli_available_quantity = None,
           sli_last_counted_at = None, sli_updated_at = None\<rparr>,
         SubmitMovement (no_faults(1 := ErrorResult)) 0 (movement IN 5)]))) = [((2, 1), 10)] \<and>
   length (filter (\<lambda>r. sl_pair r = (2, 1))
     (stock_levels (run (first_rows @
        [SubmitMovement no_faults 0 (movement IN 10),
         CreateStockLevel \<lparr>sli_product_id = 2, sli_warehouse_id = 1, sli_quantity = Some 3,
           sli_reserved_quantity = None, sli_available_quantity = None,
           sli_last_counted_at = None, sli_updated_at = None\<rparr>,
         SubmitMovement (no_faults(1 := ErrorResult)) 0 (movement IN 5)])))) \<le> 1"
proof -
  have "map (\<lambda>r. (sl_pair r, sl_quantity r))
     (stock_levels (run (first_rows @
        [SubmitMovement no_faults 0 (movement IN 10),
         CreateStockLevel \<lparr>sli_product_id = 2, sli_warehouse_id = 1, sli_quantity = Some 3,
           sli_reserved_quantity = None, sli_available_quantity = None,
           sli_last_counted_at = None, sli_updated_at = None\<rparr>,
         SubmitMovement (no_faults(1 := ErrorResult)) 0 (movement IN 5)]))) = [((2, 1), 10)]"
    by code_simp
  then show ?thesis
    using one_level_per_pair [of "first_rows @
        [SubmitMovement no_faults 0 (movement IN 10),
         CreateStockLevel \<lparr>sli_product_id = 2, sli_warehouse_id = 1, sli_quantity = Some 3,
           sli_reserved_quantity = None, sli_available_quantity = None,
           sli_last_counted_at = None, sli_updated_at = None\<rparr>,
         SubmitMovement (no_faults(1 := ErrorResult)) 0 (movement IN 5)]" 2 1]
    by simp
qed

text \<open>
  C6. Deleting a supplier or a warehouse that a purchase order refers to, or a product
  that an order item refers to, is refused with RestrictedDelete and leaves the whole
  store as it was, so the row and the rows that refer to it stay. Otherwise deleting a
  product removes the product with exactly its stock levels and movements, deleting a
  warehouse removes the warehouse with exactly its stock levels and movements, and
  deleting a purchase order removes the order with exactly its items.
\<close>

theorem delete_cascades_or_is_restricted:
  "(list_ex (\<lambda>r. po_supplier_id r = i) (purchase_orders d) \<longrightarrow>
      delete_supplier d i = Inl RestrictedDelete \<and> exec d (DeleteSupplier i) = d) \<and>
   (list_ex (\<lambda>r. po_warehouse_id r = i) (purchase_orders d) \<longrightarrow>
      delete_warehouse d i = Inl RestrictedDelete \<and> exec d (DeleteWarehouse i) = d) \<and>
   (list_ex (\<lambda>r. it_product_id r = i) (purchase_order_items d) \<longrightarrow>
      delete_product d i = Inl RestrictedDelete \<and> exec d (DeleteProduct i) = d) \<and>
   (\<not> list_ex (\<lambda>r. it_product_id r = i) (purchase_order_items d) \<longrightarrow>
      \<not> product_exists (exec d (DeleteProduct i)) i \<and>
      products (exec d (DeleteProduct i)) = filter (\<lambda>r. p_id r \<noteq> i) (products d) \<and>
      stock_levels (exec d (DeleteProduct i)) =
        filter (\<lambda>r. sl_product_id r \<noteq> i) (stock_levels d) \<and>
      stock_movements (exec d (DeleteProduct i)) =
        filter (\<lambda>r. sm_product_id r \<noteq> i) (stock_movements d)) \<and>
   (\<not> list_ex (\<lambda>r. po_warehouse_id r = i) (purchase_orders d) \<longrightarrow>
      \<not> warehouse_exists (exec d (DeleteWarehouse i)) i \<and>
      warehouses (exec d (DeleteWarehouse i)) = filter (\<lambda>r. w_id r \<noteq> i) (warehouses d) \<and>
      stock_levels (exec d (DeleteWarehouse i)) =
        filter (\<lambda>r. sl_warehouse_id r \<noteq> i) (stock_levels d) \<and>
      stock_movements (exec d (DeleteWarehouse i)) =
        filter (\<lambda>r. sm_warehouse_id r \<noteq> i) (stock_movements d)) \<and>
   \<not> purchase_order_exists (exec d (DeletePurchaseOrder i)) i \<and>
   purchase_orders (exec d (DeletePurchaseOrder i)) =
     filter (\<lambda>r. po_id r \<noteq> i) (purchase_orders d) \<and>
   purchase_order_items (exec d (DeletePurchaseOrder i)) =
     filter (\<lambda>r. it_purchase_order_id r \<noteq> i) (purchase_order_items d)"
  by (simp add: delete_supplier_def delete_warehouse_def delete_product_def
      delete_purchase_order_def keep_def product_exists_def warehouse_exists_def
      purchase_order_exists_def list_ex_iff)

lemma ordered_eq:
  "ordered = \<lparr>suppliers = [\<lparr>s_id = 0, s_name = ''Acme''\<rparr>],
     warehouses = [\<lparr>w_id = 1, w_name = ''Main''\<rparr>],
     products = [\<lparr>p_id = 2, p_sku = ''A-1'', p_name = ''Bolt'', p_supplier_id = Some 0\<rparr>],
     stock_levels = [\<lparr>sl_id = 4, sl_product_id = 2, sl_warehouse_id = 1, sl_quantity = 10,
        sl_reserved_quantity = 0, sl_available_quantity = 10, sl_last_counted_at = None,
        sl_updated_at = 0\<rparr>],
     stock_movements = [\<lparr>sm_id = 3, sm_product_id = 2, sm_warehouse_id = 1,
        sm_movement_type = IN, sm_quantity = 10, sm_reference_number = [], sm_notes = [],
        sm_created_by = None, sm_created_at = 0\<rparr>],
     purchase_orders = [\<lparr>po_id = 5, po_number = ''PO2024010007'', po_supplier_id = 0,
        po_warehouse_id = 1, po_order_date = ''2024-01-15'', po_expected_date = None,
        po_status = DRAFT, po_total_amount = 280, po_notes = [], po_created_by = None,
        po_created_at = 0, po_updated_at = 0\<rparr>],
     purchase_order_items =
       [\<lparr>it_id = 6, it_purchase_order_id = 5, it_product_id = 2, it_quantity_ordered = 2,
         it_quantity_received = 0, it_unit_price = 125, it_total_price = 250,
         it_created_at = 0\<rparr>,
        \<lparr>it_id = 7, it_purchase_order_id = 5, it_product_id = 2, it_quantity_ordered = 3,
         it_quantity_received = 0, it_unit_price = 10, it_total_price = 30,
         it_created_at = 0\<rparr>],
     next_uuid = 8, clock = 0\<rparr>"
  by code_simp

theorem delete_cascades_or_is_restricted_witness:
  "delete_supplier ordered 0 = Inl RestrictedDelete \<and> exec ordered (DeleteSupplier 0) = ordered \<and>
   delete_warehouse ordered 1 = Inl RestrictedDelete \<and> exec ordered (DeleteWarehouse 1) = ordered \<and>
   delete_product ordered 2 = Inl RestrictedDelete \<and> exec ordered (DeleteProduct 2) = ordered \<and>
   length (stock_levels stocked) = 1 \<and> length (stock_movements stocked) = 1 \<and>
   products (exec stocked (DeleteProduct 2)) = [] \<and>
   stock_levels (exec stocked (DeleteProduct 2)) = [] \<and>
   stock_movements (exec stocked (DeleteProduct 2)) = [] \<and>
   warehouses (exec stocked (DeleteWarehouse 1)) = [] \<and>
   stock_levels (exec stocked (DeleteWarehouse 1)) = [] \<and>
   stock_movements (exec stocked (DeleteWarehouse 1)) = [] \<and>
   length (purchase_order_items ordered) = 2 \<and>
   purchase_orders (exec ordered (DeletePurchaseOrder 5)) = [] \<and>
   purchase_order_items (exec ordered (DeletePurchaseOrder 5)) = []"
proof -
  have s: "list_ex (\<lambda>r. po_supplier_id r = 0) (purchase_orders ordered)"
    and w: "list_ex (\<lambda>r. po_warehouse_id r = 1) (purchase_orders ordered)"
    and p: "list_ex (\<lambda>r. it_product_id r = 2) (purchase_order_items ordered)"
    by (simp_all add: ordered_eq)
  have free: "\<not> list_ex (\<lambda>r. it_product_id r = 2) (purchase_order_items stocked)"
    "\<not> list_ex (\<lambda>r. po_warehouse_id r = 1) (purchase_orders stocked)"
    by (simp_all add: stocked_eq)
  have 1: "delete_supplier ordered 0 = Inl RestrictedDelete \<and>
      exec ordered (DeleteSupplier 0) = ordered"
    using delete_cascades_or_is_restricted [of 0 ordered] s by blast
  have 2: "delete_warehouse ordered 1 = Inl RestrictedDelete \<and>
      exec ordered (DeleteWarehouse 1) = ordered"
    using delete_cascades_or_is_restricted [of 1 ordered] w by blast
  have 3: "delete_product ordered 2 = Inl RestrictedDelete \<and>
      exec ordered (DeleteProduct 2) = ordered"
    using delete_cascades_or_is_restricted [of 2 ordered] p by blast
  have "products (exec stocked (DeleteProduct 2)) = filter (\<lambda>r. p_id r \<noteq> 2) (products stocked) \<and>
      stock_levels (exec stocked (DeleteProduct 2)) =
        filter (\<lambda>r. sl_product_id r \<noteq> 2) (stock_levels stocked) \<and>
      stock_movements (exec stocked (DeleteProduct 2)) =
        filter (\<lambda>r. sm_product_id r \<noteq> 2) (stock_movements stocked)"
    using delete_cascades_or_is_restricted [of 2 stocked] free(1) by blast
  then have 4: "products (exec stocked (DeleteProduct 2)) = [] \<and>
      stock_levels (exec stocked (DeleteProduct 2)) = [] \<and>
      stock_movements (exec stocked (DeleteProduct 2)) = []"
    by (simp add: stocked_eq)
  have "warehouses (exec stocked (DeleteWarehouse 1)) = filter (\<lambda>r. w_id r \<noteq> 1) (warehouses stocked) \<and>
      stock_levels (exec stocked (DeleteWarehouse 1)) =
        filter (\<lambda>r. sl_warehouse_id r \<noteq> 1) (stock_levels stocked) \<and>
      stock_movements (exec stocked (DeleteWarehouse 1)) =
        filter (\<lambda>r. sm_warehouse_id r \<noteq> 1) (stock_movements stocked)"
    using delete_cascades_or_is_restricted [of 1 stocked] free(2) by blast
  then have 5: "warehouses (exec stocked (DeleteWarehouse 1)) = [] \<and>
      stock_levels (exec stocked (DeleteWarehouse 1)) = [] \<and>
      stock_movements (exec stocked (DeleteWarehouse 1)) = []"
    by (simp add: stocked_eq)
  have "purchase_orders (exec ordered (DeletePurchaseOrder 5)) =
     filter (\<lambda>r. po_id r \<noteq> 5) (purchase_orders ordered) \<and>
   purchase_order_items (exec ordered (DeletePurchaseOrder 5)) =
     filter (\<lambda>r. it_purchase_order_id r \<noteq> 5) (purchase_order_items ordered)"
    using delete_cascades_or_is_restricted [of 5 ordered] by blast
  then have 6: "purchase_orders (exec ordered (DeletePurchaseOrder 5)) = [] \<and>
   purchase_order_items (exec ordered (DeletePurchaseOrder 5)) = []"
    by (simp add: ordered_eq)
  have 7: "length (stock_levels stocked) = 1 \<and> length (stock_movements stocked) = 1 \<and>
    length (purchase_order_items ordered) = 2"
    by (simp add: ordered_eq stocked_eq)
  from 1 2 3 4 5 6 7 show ?thesis by blast
qed

section \<open>Saving an order\<close>




















lemma build_items_generated:
  assumes "list_ex (\<lambda>p. iti_total_price p \<noteq> None) payload"
  shows "\<exists>e. build_items d i payload = Inl e"
  using assms
proof (induction payload arbitrary: i)
  case Nil
  then show ?case by simp
next
  case (Cons p rest)
  show ?case
  proof (cases "build_item d i p")
    case (Inl e)
    then show ?thesis by simp
  next
    case (Inr row)
    then have "iti_total_price p = None" by (rule build_item_Inr(9))
    with Cons.prems have "list_ex (\<lambda>p. iti_total_price p \<noteq> None) rest" by simp
    from Cons.IH [OF this, of "Suc i"] obtain e where "build_items d (Suc i) rest = Inl e" ..
    with Inr show ?thesis by simp
  qed
qed

text \<open>
  C4, as amended. In every store that the operations can reach, every order item has
  total_price = quantity_ordered * unit_price. The field cannot be written: an insert
  whose payload carries a value for \<^verbatim>\<open>total_price\<close> in any of its rows is refused and
  writes no row, and so is such an update. A value of a caller is therefore never
  stored; it is not ignored, the whole write fails.
\<close>

theorem total_price_is_derived:
  "list_all (\<lambda>r. it_total_price r = it_quantity_ordered r * it_unit_price r)
     (purchase_order_items (run ops)) \<and>
   (list_ex (\<lambda>p. iti_total_price p \<noteq> None) payload \<longrightarrow>
      (\<exists>e. insert_purchase_order_items d payload = Inl e) \<and> exec d (CreateItems payload) = d) \<and>
   insert_purchase_order_items d [p\<lparr>iti_total_price := Some v\<rparr>] = Inl GeneratedAlways \<and>
   update_purchase_order_item d i (upd\<lparr>itu_total_price := Some v\<rparr>) = Inl GeneratedAlways"
proof -
  have "list_all total_ok (purchase_order_items (run ops))"
    using wf_db_run [of ops] by (simp add: wf_db_def wf_orders_def)
  then have a: "list_all (\<lambda>r. it_total_price r = it_quantity_ordered r * it_unit_price r)
     (purchase_order_items (run ops))"
    by (simp add: total_ok_def list_all_iff)
  have b: "(\<exists>e. insert_purchase_order_items d payload = Inl e) \<and> exec d (CreateItems payload) = d"
    if "list_ex (\<lambda>p. iti_total_price p \<noteq> None) payload"
  proof -
    from build_items_generated [OF that, of d "next_uuid d"]
    obtain e where "build_items d (next_uuid d) payload = Inl e" ..
    then have "insert_purchase_order_items d payload = Inl e"
      by (simp add: insert_purchase_order_items_def)
    then show ?thesis by (simp add: keep_def)
  qed
  have c: "insert_purchase_order_items d [p\<lparr>iti_total_price := Some v\<rparr>] = Inl GeneratedAlways"
    by (simp add: insert_purchase_order_items_def build_item_def)
  have e: "update_purchase_order_item d i (upd\<lparr>itu_total_price := Some v\<rparr>) = Inl GeneratedAlways"
    by (simp add: update_purchase_order_item_def)
  from a b c e show ?thesis by blast
qed

theorem total_price_is_derived_witness:
  "map (\<lambda>r. (it_quantity_ordered r, it_unit_price r, it_total_price r))
     (purchase_order_items ordered) = [(2, 125, 250), (3, 10, 30)] \<and>
   list_all (\<lambda>r. it_total_price r = it_quantity_ordered r * it_unit_price r)
     (purchase_order_items ordered) \<and>
   exec ordered (CreateItems [(item_payload 5 (line 1 2))\<lparr>iti_total_price := Some 7\<rparr>]) = ordered"
proof -
  have "list_all (\<lambda>r. it_total_price r = it_quantity_ordered r * it_unit_price r)
     (purchase_order_items ordered)"
    using total_price_is_derived
      [of "first_rows @ [SubmitMovement no_faults 0 (movement IN 10),
         SaveOrder no_faults Create None order_form [line 2 (5 / 4), line 3 (1 / 10)]]"]
    by (simp add: ordered_def)
  moreover
  have "list_ex (\<lambda>p. iti_total_price p \<noteq> None) [(item_payload 5 (line 1 2))\<lparr>iti_total_price := Some 7\<rparr>]"
    by simp
  then have "exec ordered (CreateItems [(item_payload 5 (line 1 2))\<lparr>iti_total_price := Some 7\<rparr>]) = ordered"
    using total_price_is_derived
      [of _ "[(item_payload 5 (line 1 2))\<lparr>iti_total_price := Some 7\<rparr>]" ordered]
    by blast
  moreover
  have "map (\<lambda>r. (it_quantity_ordered r, it_unit_price r, it_total_price r))
     (purchase_order_items ordered) = [(2, 125, 250), (3, 10, 30)]"
    by (simp add: ordered_eq)
  ultimately show ?thesis by simp
qed

text \<open>
  The claim as stated says that a supplied total_price is ignored and the product stored
  in its place. It is not: the line of 1 unit at 2.00 is stored as a third item of the
  order when the payload has no \<^verbatim>\<open>total_price\<close>, and the same line with
  \<^verbatim>\<open>total_price\<close> 7 is refused by the store, which then holds the two items it held.
\<close>

theorem supplied_total_price_is_refused:
  "map it_total_price (purchase_order_items ordered) = [250, 30] \<and>
   map it_total_price
     (purchase_order_items (exec ordered (CreateItems [item_payload 5 (line 1 2)]))) =
     [250, 30, 200] \<and>
   insert_purchase_order_items ordered [(item_payload 5 (line 1 2))\<lparr>iti_total_price := Some 7\<rparr>] =
     Inl GeneratedAlways \<and>
   map it_total_price
     (purchase_order_items
        (exec ordered (CreateItems [(item_payload 5 (line 1 2))\<lparr>iti_total_price := Some 7\<rparr>]))) =
     [250, 30]"
  by code_simp

end
